theory Spec2Isabelle
  imports Main "HOL-Library.Word"
begin

unbundle bit_operations_syntax

chapter \<open>Anchor agent: chat repository, job bridge, crawl polling, media keys\<close>

section \<open>JavaScript strings\<close>

text \<open>
  A JavaScript string is a sequence of UTF-16 code units. Regular expressions without the
  \<^verbatim>\<open>u\<close> flag, \<^verbatim>\<open>split\<close>, \<^verbatim>\<open>endsWith\<close>, \<^verbatim>\<open>indexOf\<close> and \<^verbatim>\<open>trim\<close> all work on code
  units, so the model is a list of 16-bit words. \<open>js\<close> turns an ASCII literal into such a
  string.
\<close>

type_synonym jschar = "16 word"
type_synonym jsstring = "jschar list"

definition js :: "string \<Rightarrow> jsstring" where
  "js s = map of_char s"

text \<open>
  The class \<^verbatim>\<open>\s\<close> and the characters removed by \<^verbatim>\<open>String.prototype.trim\<close> are the same
  set: WhiteSpace and LineTerminator of ECMAScript (TAB, LF, VT, FF, CR, SPACE, NBSP,
  U+1680, U+2000..U+200A, U+2028, U+2029, U+202F, U+205F, U+3000, U+FEFF).
\<close>

definition isSpace :: "jschar \<Rightarrow> bool" where
  "isSpace c = (c \<in> {9, 10, 11, 12, 13, 32, 160, 5760, 8232, 8233, 8239, 8287, 12288, 65279}
                \<or> (8192 \<le> c \<and> c \<le> 8202))"

abbreviation SP :: jschar where "SP \<equiv> 32"
abbreviation LBR :: jschar where "LBR \<equiv> 91"
abbreviation RBR :: jschar where "RBR \<equiv> 93"

text \<open>\<^verbatim>\<open>String.prototype.trim\<close> removes the white space at both ends.\<close>

definition trim :: "jsstring \<Rightarrow> jsstring" where
  "trim s = rev (dropWhile isSpace (rev (dropWhile isSpace s)))"

text \<open>
  \<^verbatim>\<open>s.split(sep)\<close> for a separator of one code unit cuts at every occurrence and keeps empty
  segments, so a string with \<open>n\<close> separators has \<open>n + 1\<close> segments and the empty string
  has one. \<^verbatim>\<open>endsWith\<close>, \<^verbatim>\<open>startsWith\<close> and \<^verbatim>\<open>includes\<close> (here \<open>stringIncludes\<close>)
  compare code units.
\<close>

fun splitOn :: "jschar \<Rightarrow> jsstring \<Rightarrow> jsstring list" where
  "splitOn sep [] = [[]]"
| "splitOn sep (c # cs) =
     (if c = sep then [] # splitOn sep cs
      else (case splitOn sep cs of [] \<Rightarrow> [[c]] | p # ps \<Rightarrow> (c # p) # ps))"

definition endsWith :: "jsstring \<Rightarrow> jsstring \<Rightarrow> bool" where
  "endsWith s suffix =
     (length suffix \<le> length s \<and> drop (length s - length suffix) s = suffix)"

definition startsWith :: "jsstring \<Rightarrow> jsstring \<Rightarrow> bool" where
  "startsWith s pre = (take (length pre) s = pre)"

fun stringIncludes :: "jsstring \<Rightarrow> jsstring \<Rightarrow> bool" where
  "stringIncludes [] sub = (sub = [])"
| "stringIncludes (c # cs) sub = (startsWith (c # cs) sub \<or> stringIncludes cs sub)"

text \<open>
  \<^verbatim>\<open>s.substring(a, b)\<close> for non-negative indices: the arguments are swapped when
  \<open>a > b\<close> and cut at the length of the string.
\<close>

definition substring :: "jsstring \<Rightarrow> nat \<Rightarrow> nat \<Rightarrow> jsstring" where
  "substring s a b = take (max a b - min a b) (drop (min a b) s)"

text \<open>Binary data (a Node \<^verbatim>\<open>Buffer\<close>, a response body) is a list of bytes.\<close>

type_synonym byte = "8 word"
type_synonym buffer = "byte list"

section \<open>Exceptions\<close>

text \<open>
  A \<^verbatim>\<open>throw\<close> (or a rejected promise that is awaited) is the left injection of a sum;
  \<open>bindE\<close> sequences two steps and stops at the first exception. \<open>HttpStatusError n\<close>
  stands for the \<^verbatim>\<open>Error\<close> objects whose message carries the HTTP status \<open>n\<close> of a failed
  request, \<open>Error m\<close> for one with the fixed message \<open>m\<close>.
\<close>

datatype js_error = RangeError | TypeError | SyntaxError | HttpStatusError nat | Error string

definition bindE :: "js_error + 'a \<Rightarrow> ('a \<Rightarrow> js_error + 'b) \<Rightarrow> js_error + 'b" where
  "bindE m f = (case m of Inl e \<Rightarrow> Inl e | Inr x \<Rightarrow> f x)"

section \<open>Chat repository: saveConversation (DatabaseService)\<close>

text \<open>
  A message is an object of the \<^verbatim>\<open>messages\<close> JSON array of a chat row. A key that an
  object does not have, or whose value is \<^verbatim>\<open>null\<close>, is \<open>None\<close>. A persona is a row of the
  personas table, whose \<^verbatim>\<open>id\<close> is the primary key and whose \<^verbatim>\<open>name\<close> is declared
  \<^verbatim>\<open>not null\<close>; both routes that call saveConversation have checked before that the
  persona is not null. The persona's \<^verbatim>\<open>id\<close> and \<^verbatim>\<open>name\<close> are the fields \<open>persona_id\<close> and
  \<open>persona_name\<close>, the chat's \<^verbatim>\<open>id\<close> and \<^verbatim>\<open>persona_id\<close> are \<open>chat_id\<close> and
  \<open>chat_persona_id\<close>, and the parameters \<^verbatim>\<open>audioUrl\<close>, \<^verbatim>\<open>userAudioUrl\<close> and \<^verbatim>\<open>videoUrl\<close>,
  which hold object-store keys, are \<open>audioKey\<close>, \<open>userAudioKey\<close> and \<open>videoKey\<close>.
\<close>

datatype role = User | Assistant

record message =
  role :: role
  content :: jsstring
  timestamp :: jsstring
  persona :: "jsstring option"
  personaId :: "jsstring option"
  audioUrl :: "jsstring option"
  videoUrl :: "jsstring option"

record persona_row =
  persona_id :: jsstring
  persona_name :: jsstring
  image_url :: "jsstring option"

text \<open>
  A row of the chats table, of the columns the function reads or writes, and the table as a
  map from the primary key \<^verbatim>\<open>id\<close>.
\<close>

record chat =
  chat_id :: jsstring
  user_id :: jsstring
  chat_persona_id :: "jsstring option"
  title :: jsstring
  messages :: "message list option"
  updated_at :: jsstring

type_synonym chats = "jsstring \<rightharpoonup> chat"

text \<open>
  What the function gets from outside: whether each of the three requests to the database
  comes back with an error, and the clock readings of \<^verbatim>\<open>new Date().toISOString()\<close> and of the
  column default \<^verbatim>\<open>now()\<close>.
\<close>

record db_env =
  selectError :: bool
  updateError :: bool
  insertError :: bool
  nowUser :: jsstring
  nowAssistant :: jsstring
  nowUpdate :: jsstring
  nowInsert :: jsstring

definition newMessage :: "db_env \<Rightarrow> jsstring \<Rightarrow> jsstring option \<Rightarrow> message" where
  "newMessage env userMessage userAudioKey =
     \<lparr>role = User, content = userMessage, timestamp = nowUser env,
      persona = None, personaId = None, audioUrl = userAudioKey, videoUrl = None\<rparr>"

definition assistantMessage ::
  "db_env \<Rightarrow> jsstring \<Rightarrow> persona_row \<Rightarrow> jsstring option \<Rightarrow> jsstring option \<Rightarrow> message" where
  "assistantMessage env responseText selectedPersona audioKey videoKey =
     \<lparr>role = Assistant, content = responseText, timestamp = nowAssistant env,
      persona = Some (persona_name selectedPersona),
      personaId = Some (persona_id selectedPersona),
      audioUrl = audioKey, videoUrl = videoKey\<rparr>"

text \<open>
  \<^verbatim>\<open>.select(...).eq('id', chatId).eq('user_id', uid).maybeSingle()\<close>: the row with that id,
  if it belongs to that user.
\<close>

definition selectChat :: "chats \<Rightarrow> jsstring \<Rightarrow> jsstring \<Rightarrow> chat option" where
  "selectChat db chatId uid =
     (case db chatId of
        None \<Rightarrow> None
      | Some row \<Rightarrow> if user_id row = uid then Some row else None)"

text \<open>\<^verbatim>\<open>existingChat.messages || []\<close>\<close>

definition orEmpty :: "message list option \<Rightarrow> message list" where
  "orEmpty ms = (case ms of None \<Rightarrow> [] | Some xs \<Rightarrow> xs)"

text \<open>
  The function returns the row the database returned, or \<^verbatim>\<open>null\<close> after any error (the
  \<^verbatim>\<open>catch\<close> logs it), together with the table afterwards. An insert fails on a database
  error and when the id is taken, which happens when the chat belongs to another user.
\<close>

definition saveConversation ::
  "db_env \<Rightarrow> chats \<Rightarrow> jsstring \<Rightarrow> jsstring \<Rightarrow> jsstring \<Rightarrow> jsstring \<Rightarrow> persona_row
     \<Rightarrow> jsstring option \<Rightarrow> jsstring option \<Rightarrow> jsstring option \<Rightarrow> chat option \<times> chats" where
  "saveConversation env db uid chatId userMessage responseText selectedPersona
       audioKey userAudioKey videoKey =
     (let newMsg = newMessage env userMessage userAudioKey;
          assistantMsg = assistantMessage env responseText selectedPersona audioKey videoKey
      in if selectError env then (None, db)
         else
           (case selectChat db chatId uid of
              Some existingChat \<Rightarrow>
                let updatedMessages = orEmpty (messages existingChat) @ [newMsg, assistantMsg]
                in if updateError env then (None, db)
                   else
                     let updatedChat = existingChat\<lparr>messages := Some updatedMessages,
                                                    updated_at := nowUpdate env\<rparr>
                     in (Some updatedChat, db(chatId \<mapsto> updatedChat))
            | None \<Rightarrow>
                if insertError env \<or> db chatId \<noteq> None then (None, db)
                else
                  let newChat = \<lparr>chat_id = chatId, user_id = uid,
                                 chat_persona_id = Some (persona_id selectedPersona),
                                 title = js ''Chat with '' @ persona_name selectedPersona,
                                 messages = Some [newMsg, assistantMsg],
                                 updated_at = nowInsert env\<rparr>
                  in (Some newChat, db(chatId \<mapsto> newChat))))"

text \<open>The messages stored under a chat id (none when there is no such chat).\<close>

definition storedMessages :: "chats \<Rightarrow> jsstring \<Rightarrow> message list" where
  "storedMessages db chatId = (case db chatId of None \<Rightarrow> [] | Some row \<Rightarrow> orEmpty (messages row))"

text \<open>
  A database without errors, a persona, and two turns on the chat id C1, the first on an
  empty table.
\<close>

definition env0 :: db_env where
  "env0 = \<lparr>selectError = False, updateError = False, insertError = False,
           nowUser = js ''t1'', nowAssistant = js ''t2'', nowUpdate = js ''t3'',
           nowInsert = js ''t4''\<rparr>"

definition persona0 :: persona_row where
  "persona0 = \<lparr>persona_id = js ''P1'', persona_name = js ''Ada'',
                image_url = Some (js ''https://bucket/personas/ada.webp'')\<rparr>"

definition chat1 :: chat where
  "chat1 =
     \<lparr>chat_id = js ''C1'', user_id = js ''U1'', chat_persona_id = Some (js ''P1''),
      title = js ''Chat with Ada'',
      messages = Some [newMessage env0 (js ''hi'') None,
                       assistantMessage env0 (js ''hello'') persona0
                         (Some (js ''U1/C1/a.pcm'')) None],
      updated_at = js ''t4''\<rparr>"

definition turn1 :: "chat option \<times> chats" where
  "turn1 = saveConversation env0 Map.empty (js ''U1'') (js ''C1'') (js ''hi'') (js ''hello'')
             persona0 (Some (js ''U1/C1/a.pcm'')) None None"

definition turn2 :: "chat option \<times> chats" where
  "turn2 = saveConversation env0 (snd turn1) (js ''U1'') (js ''C1'') (js ''more'') (js ''sure'')
             persona0 None None None"

section \<open>Job bridge (ComfyUI wrapper)\<close>

text \<open>
  The bridge keeps the prompt id of the job it submitted (\<^verbatim>\<open>-1\<close> before any submission,
  here \<open>Unset\<close>), the list \<^verbatim>\<open>nodes.api_save\<close> of output node ids, the last queue length
  and its optional callbacks. The answer of the server to \<^verbatim>\<open>POST /prompt\<close> is an input:
  the request fails, or it is answered with a status and a body that parses as JSON or does
  not. In the body, \<^verbatim>\<open>prompt_id\<close> and \<^verbatim>\<open>node_errors\<close> may be missing, and so may
  \<^verbatim>\<open>dependent_outputs\<close> in a node error.
\<close>

datatype prompt_ref = Unset | PromptId jsstring

record node_error =
  class_type :: jsstring
  dependent_outputs :: "jsstring list option"

record submit_response =
  prompt_id :: "jsstring option"
  node_errors :: "(jsstring \<times> node_error) list option"

datatype fetch_result =
    FetchFailed js_error
  | Responded bool nat "submit_response option"

text \<open>
  A web-socket event is binary or text; text parses as JSON or not. Of a parsed message
  the handler reads \<^verbatim>\<open>type\<close>, \<^verbatim>\<open>data.prompt_id\<close>, \<^verbatim>\<open>data.node\<close> and, for a status
  message, \<^verbatim>\<open>data.status.exec_info.queue_remaining\<close>.
\<close>

record ws_message =
  mtype :: jsstring
  data_prompt_id :: "jsstring option"
  data_node :: "jsstring option"
  queue_remaining :: "nat option"

datatype ws_event = Binary buffer | Text "ws_message option"

record comfy =
  api_save :: "jsstring list"
  promptId :: prompt_ref
  queueRemaining :: nat
  hasSaveCallback :: bool
  hasMessageCallback :: bool

text \<open>What the bridge does to the outside: an interrupt request, a callback call.\<close>

datatype bridge_effect =
    InterruptRequested prompt_ref
  | SaveCallback ws_message prompt_ref
  | MessageCallback ws_message prompt_ref

text \<open>
  \<^verbatim>\<open>Object.values(node_errors).some(e => e.dependent_outputs?.some(o => api_save.includes(o)))\<close>
\<close>

definition saveNodeAffected :: "jsstring list \<Rightarrow> (jsstring \<times> node_error) list \<Rightarrow> bool" where
  "saveNodeAffected saveNodes errs =
     list_ex (\<lambda>(nodeId, nodeError).
        case dependent_outputs nodeError of
          None \<Rightarrow> False
        | Some outputs \<Rightarrow> list_ex (\<lambda>output. output \<in> set saveNodes) outputs) errs"

text \<open>
  \<^verbatim>\<open>queue\<close>: the new bridge state, what was done, and the promise's outcome. A non-success
  status throws before the body is read. The prompt id is stored when it is truthy.
  \<^verbatim>\<open>Object.values(undefined)\<close> throws a TypeError, which the surrounding \<^verbatim>\<open>catch\<close> turns
  into a rejection. \<^verbatim>\<open>interupt()\<close> is called without \<^verbatim>\<open>await\<close>: the request is issued
  and its result is not looked at. (The logging of the node errors changes nothing.)
\<close>

definition queue :: "comfy \<Rightarrow> fetch_result \<Rightarrow> comfy \<times> bridge_effect list \<times> (js_error + submit_response)" where
  "queue c r =
     (case r of
        FetchFailed err \<Rightarrow> (c, [], Inl err)
      | Responded isOk httpStatus body \<Rightarrow>
          if \<not> isOk then (c, [], Inl (HttpStatusError httpStatus))
          else
            (case body of
               None \<Rightarrow> (c, [], Inl SyntaxError)
             | Some responseData \<Rightarrow>
                 let c' = (case prompt_id responseData of
                             None \<Rightarrow> c
                           | Some p \<Rightarrow> if p = [] then c else c\<lparr>promptId := PromptId p\<rparr>)
                 in (case node_errors responseData of
                       None \<Rightarrow> (c', [], Inl TypeError)
                     | Some errs \<Rightarrow>
                         if saveNodeAffected (api_save c') errs
                         then (c', [InterruptRequested (promptId c')],
                               Inl (Error ''Save node affected by errors.''))
                         else (c', [], Inr responseData))))"

text \<open>
  \<^verbatim>\<open>onmessage\<close>: binary events are ignored; text that does not parse, and a status message
  without a queue length, throw inside the handler's \<^verbatim>\<open>try\<close> and end there. The callbacks
  fire only for a message whose prompt id is truthy and equal to the stored one.
\<close>

definition messageCallbackTypes :: "jsstring list" where
  "messageCallbackTypes =
     [js ''executed'', js ''execution_start'', js ''execution_cache'', js ''execution_error'',
      js ''execution_success'']"

definition onmessage :: "comfy \<Rightarrow> ws_event \<Rightarrow> comfy \<times> bridge_effect list" where
  "onmessage c event =
     (case event of
        Binary _ \<Rightarrow> (c, [])
      | Text None \<Rightarrow> (c, [])
      | Text (Some message) \<Rightarrow>
          if mtype message = js ''status'' \<and> queue_remaining message = None then (c, [])
          else
            let c' = (case queue_remaining message of
                        None \<Rightarrow> c
                      | Some n \<Rightarrow> if mtype message = js ''status''
                                  then c\<lparr>queueRemaining := n\<rparr> else c)
            in if (case data_prompt_id message of
                     None \<Rightarrow> False
                   | Some p \<Rightarrow> p \<noteq> [] \<and> PromptId p = promptId c')
               then (c',
                     (if mtype message = js ''executed''
                         \<and> (case data_node message of None \<Rightarrow> False
                              | Some n \<Rightarrow> n \<in> set (api_save c'))
                         \<and> hasSaveCallback c'
                      then [SaveCallback message (promptId c')] else [])
                     @ (if mtype message \<in> set messageCallbackTypes \<and> hasMessageCallback c'
                        then [MessageCallback message (promptId c')] else []))
               else (c', []))"

text \<open>The prompt id the bridge holds after reading a response body.\<close>

definition assignedPrompt :: "comfy \<Rightarrow> submit_response \<Rightarrow> prompt_ref" where
  "assignedPrompt c responseData =
     (case prompt_id responseData of
        None \<Rightarrow> promptId c
      | Some p \<Rightarrow> if p = [] then promptId c else PromptId p)"

text \<open>
  A bridge as the video service creates it (save node 131), three response bodies and the
  event that reports node 131 executed for prompt p1.
\<close>

definition bridge0 :: comfy where
  "bridge0 = \<lparr>api_save = [js ''131''], promptId = Unset, queueRemaining = 0,
              hasSaveCallback = True, hasMessageCallback = True\<rparr>"

definition noErrorsField :: submit_response where
  "noErrorsField = \<lparr>prompt_id = Some (js ''p1''), node_errors = None\<rparr>"

definition emptyErrors :: submit_response where
  "emptyErrors = \<lparr>prompt_id = Some (js ''p1''), node_errors = Some []\<rparr>"

definition saveNodeErrors :: submit_response where
  "saveNodeErrors =
     \<lparr>prompt_id = Some (js ''p1''),
      node_errors = Some [(js ''125'', \<lparr>class_type = js ''LoadAudio'',
                                        dependent_outputs = Some [js ''131'']\<rparr>)]\<rparr>"

definition executed131 :: ws_message where
  "executed131 = \<lparr>mtype = js ''executed'', data_prompt_id = Some (js ''p1''),
                  data_node = Some (js ''131''), queue_remaining = None\<rparr>"

section \<open>Crawl: waitForCrawlCompletion and crawlRedditNews\<close>

text \<open>
  \<^verbatim>\<open>JSON.parse\<close> is a builtin: every function below takes it as the parameter \<open>parse\<close>,
  with \<open>None\<close> for a SyntaxError, and every general statement holds for any such function.
  A parsed value is a \<open>json\<close>; the members of an object are kept in the order of the text.
\<close>

datatype json =
    JNull
  | JBool bool
  | JNum nat
  | JStr jsstring
  | JArr "json list"
  | JObj "(jsstring \<times> json) list"

abbreviation LBRACE :: jschar where "LBRACE \<equiv> 123"
abbreviation RBRACE :: jschar where "RBRACE \<equiv> 125"
abbreviation QUOTE :: jschar where "QUOTE \<equiv> 34"
abbreviation NEWLINE :: jschar where "NEWLINE \<equiv> 10"

text \<open>
  For the examples, \<open>miniParse\<close> reads the part of JSON they use: objects, arrays, strings
  without escapes, natural numbers, \<^verbatim>\<open>true\<close>, \<^verbatim>\<open>false\<close>, \<^verbatim>\<open>null\<close> and white space
  between tokens, and nothing after the value. The first argument of the three mutually
  recursive readers bounds the number of nested calls.
\<close>

definition jsonSpace :: "jschar \<Rightarrow> bool" where
  "jsonSpace c = (c = 32 \<or> c = 9 \<or> c = 10 \<or> c = 13)"

definition isDigit :: "jschar \<Rightarrow> bool" where
  "isDigit c = (48 \<le> c \<and> c \<le> 57)"

definition digitsValue :: "jsstring \<Rightarrow> nat" where
  "digitsValue ds = foldl (\<lambda>n d. 10 * n + (unat d - 48)) 0 ds"

definition miniString :: "jsstring \<Rightarrow> (jsstring \<times> jsstring) option" where
  "miniString s =
     (let body = takeWhile (\<lambda>c. c \<noteq> QUOTE) s; rest = dropWhile (\<lambda>c. c \<noteq> QUOTE) s
      in if rest = [] \<or> list_ex (\<lambda>c. c = 92 \<or> c < 32) body then None
         else Some (body, tl rest))"

definition miniNumber :: "jsstring \<Rightarrow> (json \<times> jsstring) option" where
  "miniNumber s =
     (let ds = takeWhile isDigit s; rest = dropWhile isDigit s
      in if ds = [] \<or> (hd ds = 48 \<and> length ds > 1) then None
         else Some (JNum (digitsValue ds), rest))"

fun miniValue :: "nat \<Rightarrow> jsstring \<Rightarrow> (json \<times> jsstring) option"
  and miniMembers :: "nat \<Rightarrow> (jsstring \<times> json) list \<Rightarrow> jsstring \<Rightarrow> (json \<times> jsstring) option"
  and miniElements :: "nat \<Rightarrow> json list \<Rightarrow> jsstring \<Rightarrow> (json \<times> jsstring) option" where
  "miniValue 0 s = None"
| "miniValue (Suc n) s =
     (case dropWhile jsonSpace s of
        [] \<Rightarrow> None
      | c # r \<Rightarrow>
          if c = LBRACE then
            (case dropWhile jsonSpace r of
               [] \<Rightarrow> None
             | d # r' \<Rightarrow> if d = RBRACE then Some (JObj [], r') else miniMembers n [] (d # r'))
          else if c = LBR then
            (case dropWhile jsonSpace r of
               [] \<Rightarrow> None
             | d # r' \<Rightarrow> if d = RBR then Some (JArr [], r') else miniElements n [] (d # r'))
          else if c = QUOTE then
            (case miniString r of None \<Rightarrow> None | Some (str, r') \<Rightarrow> Some (JStr str, r'))
          else if startsWith (c # r) (js ''true'') then Some (JBool True, drop 4 (c # r))
          else if startsWith (c # r) (js ''false'') then Some (JBool False, drop 5 (c # r))
          else if startsWith (c # r) (js ''null'') then Some (JNull, drop 4 (c # r))
          else miniNumber (c # r))"
| "miniMembers 0 acc s = None"
| "miniMembers (Suc n) acc s =
     (case dropWhile jsonSpace s of
        [] \<Rightarrow> None
      | c # r \<Rightarrow>
          if c \<noteq> QUOTE then None
          else
            (case miniString r of
               None \<Rightarrow> None
             | Some (key, r1) \<Rightarrow>
                 (case dropWhile jsonSpace r1 of
                    [] \<Rightarrow> None
                  | colon # r2 \<Rightarrow>
                      if colon \<noteq> 58 then None
                      else
                        (case miniValue n r2 of
                           None \<Rightarrow> None
                         | Some (v, r3) \<Rightarrow>
                             (case dropWhile jsonSpace r3 of
                                [] \<Rightarrow> None
                              | e # r4 \<Rightarrow>
                                  if e = RBRACE then Some (JObj (acc @ [(key, v)]), r4)
                                  else if e = 44 then miniMembers n (acc @ [(key, v)]) r4
                                  else None)))))"
| "miniElements 0 acc s = None"
| "miniElements (Suc n) acc s =
     (case miniValue n s of
        None \<Rightarrow> None
      | Some (v, r) \<Rightarrow>
          (case dropWhile jsonSpace r of
             [] \<Rightarrow> None
           | e # r' \<Rightarrow>
               if e = RBR then Some (JArr (acc @ [v]), r')
               else if e = 44 then miniElements n (acc @ [v]) r'
               else None))"

definition miniParse :: "jsstring \<Rightarrow> json option" where
  "miniParse s =
     (case miniValue (length s + 1) s of
        None \<Rightarrow> None
      | Some (v, rest) \<Rightarrow> if dropWhile jsonSpace rest = [] then Some v else None)"

text \<open>
  Reading a property of a parsed value (\<open>None\<close> is \<^verbatim>\<open>undefined\<close>; of two members with one
  key the later counts), and the truth value of the result in a condition.
\<close>

definition field :: "jsstring \<Rightarrow> json \<Rightarrow> json option" where
  "field key v = (case v of JObj members \<Rightarrow> map_of (rev members) key | _ \<Rightarrow> None)"

definition truthyJson :: "json option \<Rightarrow> bool" where
  "truthyJson v =
     (case v of
        None \<Rightarrow> False
      | Some JNull \<Rightarrow> False
      | Some (JBool b) \<Rightarrow> b
      | Some (JNum n) \<Rightarrow> n \<noteq> 0
      | Some (JStr s) \<Rightarrow> s \<noteq> []
      | Some _ \<Rightarrow> True)"

text \<open>\<^verbatim>\<open>indexOf\<close> and \<^verbatim>\<open>lastIndexOf\<close> of one code unit; \<open>None\<close> is \<^verbatim>\<open>-1\<close>.\<close>

definition indexOf :: "jschar \<Rightarrow> jsstring \<Rightarrow> nat option" where
  "indexOf c s = (if c \<in> set s then Some (length (takeWhile (\<lambda>d. d \<noteq> c) s)) else None)"

definition lastIndexOf :: "jschar \<Rightarrow> jsstring \<Rightarrow> nat option" where
  "lastIndexOf c s =
     (if c \<in> set s then Some (length s - 1 - length (takeWhile (\<lambda>d. d \<noteq> c) (rev s))) else None)"

text \<open>\<^verbatim>\<open>text.split('\n').filter(line => line.trim())\<close>\<close>

definition nonBlankLines :: "jsstring \<Rightarrow> jsstring list" where
  "nonBlankLines text = filter (\<lambda>line. trim line \<noteq> []) (splitOn NEWLINE text)"

text \<open>
  The status reply that already holds the posts (it contains \<^verbatim>\<open>"post_id"\<close>): every line is
  parsed on its own; a line that does not parse is skipped, and so is a value without a
  truthy \<^verbatim>\<open>post_id\<close> (for \<^verbatim>\<open>null\<close> the property read throws inside the same \<^verbatim>\<open>try\<close>).
\<close>

fun collectPosts :: "(jsstring \<Rightarrow> json option) \<Rightarrow> jsstring list \<Rightarrow> json list \<Rightarrow> json list" where
  "collectPosts parse [] allPosts = allPosts"
| "collectPosts parse (line # lines) allPosts =
     collectPosts parse lines
       (case parse (trim line) of
          None \<Rightarrow> allPosts
        | Some post \<Rightarrow>
            if truthyJson (field (js ''post_id'') post) then allPosts @ [post] else allPosts)"

text \<open>
  The status reply that does not parse as it is: with \<^verbatim>\<open>}{\<close> in it, the text from the
  first \<^verbatim>\<open>{\<close> to the first \<^verbatim>\<open>}\<close>; otherwise the text up to the closing brace at which
  the count of braces is back at zero, if there is one.
\<close>

fun braceEnd :: "jsstring \<Rightarrow> int \<Rightarrow> nat \<Rightarrow> nat" where
  "braceEnd [] braceCount i = 0"
| "braceEnd (c # cs) braceCount i =
     (let braceCount' = (if c = LBRACE then braceCount + 1 else braceCount);
          braceCount'' = (if c = RBRACE then braceCount' - 1 else braceCount')
      in if braceCount'' = 0 \<and> c = RBRACE then i + 1
         else braceEnd cs braceCount'' (i + 1))"

definition cleanSnapshotText :: "jsstring \<Rightarrow> jsstring" where
  "cleanSnapshotText jsonText =
     (if stringIncludes jsonText [RBRACE, LBRACE] then
        (let firstBrace = (case indexOf LBRACE jsonText of None \<Rightarrow> 0 | Some i \<Rightarrow> i);
             lastBrace = (case indexOf RBRACE jsonText of None \<Rightarrow> 0 | Some i \<Rightarrow> i + 1)
         in substring jsonText firstBrace lastBrace)
      else
        (let endPos = braceEnd jsonText 0 0
         in if endPos > 0 then substring jsonText 0 endPos else jsonText))"

definition parseSnapshot :: "(jsstring \<Rightarrow> json option) \<Rightarrow> jsstring \<Rightarrow> js_error + json" where
  "parseSnapshot parse jsonText =
     (case parse jsonText of
        Some snapshot \<Rightarrow> Inr snapshot
      | None \<Rightarrow>
          (case parse (cleanSnapshotText jsonText) of
             Some snapshot \<Rightarrow> Inr snapshot
           | None \<Rightarrow> Inl (Error ''Invalid JSON response from BrightData API'')))"

text \<open>
  The data payload, first attempt (the \<^verbatim>\<open>try\<close> block; \<open>None\<close> when it throws): with
  \<^verbatim>\<open>}{\<close> in the text every non-blank line is parsed and one failure fails them all; a text
  that starts with \<^verbatim>\<open>[\<close> and contains \<^verbatim>\<open>}]\<close> is parsed as a whole and, failing that, from its
  first \<^verbatim>\<open>[\<close> to its last \<^verbatim>\<open>]\<close>; any other text is parsed as a whole.
\<close>

fun allParsed :: "json option list \<Rightarrow> json list option" where
  "allParsed [] = Some []"
| "allParsed (None # vs) = None"
| "allParsed (Some v # vs) = (case allParsed vs of None \<Rightarrow> None | Some rest \<Rightarrow> Some (v # rest))"

definition structuredParse :: "(jsstring \<Rightarrow> json option) \<Rightarrow> jsstring \<Rightarrow> json option" where
  "structuredParse parse cleanDataText =
     (if stringIncludes cleanDataText [RBRACE, LBRACE] then
        (case allParsed (map (\<lambda>line. parse (trim line)) (nonBlankLines cleanDataText)) of
           None \<Rightarrow> None
         | Some records \<Rightarrow> Some (JArr records))
      else if startsWith cleanDataText [LBR] \<and> stringIncludes cleanDataText [RBRACE, RBR] then
        (case parse cleanDataText of
           Some data \<Rightarrow> Some data
         | None \<Rightarrow>
             (case (indexOf LBR cleanDataText, lastIndexOf RBR cleanDataText) of
                (Some arrayStart, Some lastBracket) \<Rightarrow>
                  if lastBracket + 1 > arrayStart
                  then parse (substring cleanDataText arrayStart (lastBracket + 1))
                  else None
              | _ \<Rightarrow> None))
      else parse cleanDataText)"

text \<open>
  The last resort (the \<^verbatim>\<open>catch\<close> block). The state of the \<^verbatim>\<open>while\<close> loop is the text from
  \<^verbatim>\<open>currentPos\<close> on and the objects found. \<open>scanObject\<close> is the inner \<^verbatim>\<open>for\<close> loop from
  the next \<^verbatim>\<open>{\<close>: it counts braces, in strings too, and stops where the count is zero,
  giving the text of the object and the text after it; at the end of the text without a
  zero count it gives \<open>None\<close>, and then \<^verbatim>\<open>endPos\<close> is still \<^verbatim>\<open>nextBrace\<close> and the loop goes
  on from the same brace. The loop need not end, so its model is a partial function: \<open>None\<close>
  is a run that does not return.
\<close>

fun scanObject :: "jsstring \<Rightarrow> int \<Rightarrow> jsstring \<Rightarrow> (jsstring \<times> jsstring) option" where
  "scanObject [] braceCount seen = None"
| "scanObject (c # cs) braceCount seen =
     (let braceCount' = (if c = LBRACE then braceCount + 1 else braceCount);
          braceCount'' = (if c = RBRACE then braceCount' - 1 else braceCount')
      in if braceCount'' = 0 then Some (rev (c # seen), cs)
         else scanObject cs braceCount'' (c # seen))"

partial_function (option) manualExtract ::
  "(jsstring \<Rightarrow> json option) \<Rightarrow> jsstring \<Rightarrow> json list \<Rightarrow> json list option" where
  "manualExtract parse rest jsonObjects =
     (if rest = [] then Some jsonObjects
      else
        (case dropWhile (\<lambda>c. c \<noteq> LBRACE) rest of
           [] \<Rightarrow> Some jsonObjects
         | b # bs \<Rightarrow>
             (case scanObject (b # bs) 0 [] of
                None \<Rightarrow> manualExtract parse (b # bs) jsonObjects
              | Some (objText, after) \<Rightarrow>
                  manualExtract parse after
                    (case parse objText of
                       None \<Rightarrow> jsonObjects
                     | Some obj \<Rightarrow> jsonObjects @ [obj]))))"

declare manualExtract.simps [code]

text \<open>
  The data payload: the first attempt on the trimmed text, then the last resort on the
  text as received; no object found is the error \<^verbatim>\<open>Invalid JSON data response\<close>.
\<close>

definition parseData :: "(jsstring \<Rightarrow> json option) \<Rightarrow> jsstring \<Rightarrow> (js_error + json) option" where
  "parseData parse dataText =
     (case structuredParse parse (trim dataText) of
        Some data \<Rightarrow> Some (Inr data)
      | None \<Rightarrow>
          (case manualExtract parse dataText [] of
             None \<Rightarrow> None
           | Some jsonObjects \<Rightarrow>
               if length jsonObjects > 0 then Some (Inr (JArr jsonObjects))
               else Some (Inl (Error ''Invalid JSON data response from BrightData API''))))"

text \<open>
  One round of the polling loop gets two replies from outside, to the status request and,
  if it comes to that, to the data request; \<open>elapsed\<close> is the time in milliseconds the round
  takes beyond the pause of \<^verbatim>\<open>pollInterval\<close> (the requests, and the timer firing late).
\<close>

record snapshot_reply =
  replyOk :: bool
  replyStatus :: nat
  replyText :: jsstring

record poll =
  statusFetch :: "js_error + snapshot_reply"
  dataFetch :: "js_error + snapshot_reply"
  elapsed :: nat

datatype poll_result = Finished "js_error + json" | Waiting | Diverged

definition maxWaitTime :: nat where
  "maxWaitTime = 45000"

definition pollInterval :: nat where
  "pollInterval = 3000"

text \<open>
  One round: it returns or throws (\<open>Finished\<close>), goes on waiting, or does not come back
  from the last resort. A status that is neither \<^verbatim>\<open>completed\<close> nor \<^verbatim>\<open>failed\<close> waits; reading
  the status of \<^verbatim>\<open>null\<close> throws a TypeError.
\<close>

definition fetchData :: "(jsstring \<Rightarrow> json option) \<Rightarrow> poll \<Rightarrow> poll_result" where
  "fetchData parse p =
     (case dataFetch p of
        Inl e \<Rightarrow> Finished (Inl e)
      | Inr dataResponse \<Rightarrow>
          if \<not> replyOk dataResponse then Finished (Inl (HttpStatusError (replyStatus dataResponse)))
          else (case parseData parse (replyText dataResponse) of
                  None \<Rightarrow> Diverged
                | Some result \<Rightarrow> Finished result))"

definition pollOnce :: "(jsstring \<Rightarrow> json option) \<Rightarrow> poll \<Rightarrow> poll_result" where
  "pollOnce parse p =
     (case statusFetch p of
        Inl e \<Rightarrow> Finished (Inl e)
      | Inr response \<Rightarrow>
          if \<not> replyOk response then Finished (Inl (HttpStatusError (replyStatus response)))
          else
            let jsonText = trim (replyText response)
            in if stringIncludes jsonText (QUOTE # js ''post_id'' @ [QUOTE])
               then Finished (Inr (JArr (collectPosts parse (nonBlankLines jsonText) [])))
               else
                 (case parseSnapshot parse jsonText of
                    Inl e \<Rightarrow> Finished (Inl e)
                  | Inr snapshot \<Rightarrow>
                      if snapshot = JNull then Finished (Inl TypeError)
                      else if field (js ''status'') snapshot = Some (JStr (js ''completed''))
                      then fetchData parse p
                      else if field (js ''status'') snapshot = Some (JStr (js ''failed''))
                      then Finished (Inl (Error ''Crawl failed''))
                      else Waiting))"

text \<open>
  \<^verbatim>\<open>while (Date.now() - startTime < maxWaitTime)\<close>: \<open>waited\<close> is the time since the start
  at the check, \<open>i\<close> counts the rounds. Every round that waits adds at least the pause, which
  is the measure of termination.
\<close>

function pollLoop ::
  "(jsstring \<Rightarrow> json option) \<Rightarrow> (nat \<Rightarrow> poll) \<Rightarrow> nat \<Rightarrow> nat \<Rightarrow> (js_error + json) option" where
  "pollLoop parse polls waited i =
     (if waited < maxWaitTime then
        (case pollOnce parse (polls i) of
           Finished result \<Rightarrow> Some result
         | Diverged \<Rightarrow> None
         | Waiting \<Rightarrow> pollLoop parse polls (waited + elapsed (polls i) + pollInterval) (Suc i))
      else Some (Inl (Error ''Crawl timeout: Results not ready within 60 seconds'')))"
  by pat_completeness auto
termination
  by (relation "measure (\<lambda>(parse, polls, waited, i). maxWaitTime - waited)")
     (auto simp: pollInterval_def)

definition waitForCrawlCompletion ::
  "(jsstring \<Rightarrow> json option) \<Rightarrow> (nat \<Rightarrow> poll) \<Rightarrow> (js_error + json) option" where
  "waitForCrawlCompletion parse polls = pollLoop parse polls 0 0"

text \<open>
  The crawl: whether the API key is configured, the table of subreddits, the outcome of
  the trigger request (the snapshot id, or an exception), the rounds of the polling loop and
  the processing of the results, which may throw. Everything is inside one \<^verbatim>\<open>try\<close>, whose
  \<^verbatim>\<open>catch\<close> returns the failure result; \<open>None\<close> is a crawl that does not return.
\<close>

record crawl_env =
  configured :: bool
  subredditsFor :: "jsstring \<Rightarrow> jsstring list option"
  trigger :: "js_error + jsstring"
  snapshotPolls :: "nat \<Rightarrow> poll"
  processRedditResults :: "json \<Rightarrow> js_error + json list"

record crawl_result =
  success :: bool
  articles :: "json list"
  crawlError :: "js_error option"

definition crawlFailure :: "js_error \<Rightarrow> crawl_result" where
  "crawlFailure e = \<lparr>success = False, articles = [], crawlError = Some e\<rparr>"

definition crawlRedditNews ::
  "(jsstring \<Rightarrow> json option) \<Rightarrow> crawl_env \<Rightarrow> jsstring \<Rightarrow> crawl_result option" where
  "crawlRedditNews parse env location =
     (if \<not> configured env
      then Some (crawlFailure (Error ''BRIGHT_DATA_KEY environment variable is required''))
      else
        (case subredditsFor env location of
           None \<Rightarrow> Some (crawlFailure (Error ''No subreddits configured for location''))
         | Some subreddits \<Rightarrow>
             if subreddits = []
             then Some (crawlFailure (Error ''No subreddits configured for location''))
             else
               (case trigger env of
                  Inl e \<Rightarrow> Some (crawlFailure e)
                | Inr snapshotId \<Rightarrow>
                    (case waitForCrawlCompletion parse (snapshotPolls env) of
                       None \<Rightarrow> None
                     | Some (Inl e) \<Rightarrow> Some (crawlFailure e)
                     | Some (Inr crawlResults) \<Rightarrow>
                         (case processRedditResults env crawlResults of
                            Inl e \<Rightarrow> Some (crawlFailure e)
                          | Inr processedArticles \<Rightarrow>
                              if crawlResults = JNull then Some (crawlFailure TypeError)
                              else Some \<lparr>success = True, articles = processedArticles,
                                        crawlError = None\<rparr>)))))"

text \<open>
  To state what the last resort finds: a closed object is a text that starts with \<^verbatim>\<open>{\<close>
  and whose brace count is back at zero exactly at its end; \<open>joinRecords\<close> writes such
  objects one after another, each after a separator, with a rest at the end.
\<close>

definition closedObject :: "jsstring \<Rightarrow> bool" where
  "closedObject frag =
     (case frag of [] \<Rightarrow> False | b # bs \<Rightarrow> b = LBRACE \<and> scanObject frag 0 [] = Some (frag, []))"

definition joinRecords :: "(jsstring \<times> jsstring) list \<Rightarrow> jsstring \<Rightarrow> jsstring" where
  "joinRecords records rest = concat (map (\<lambda>(sep, obj). sep @ obj) records) @ rest"

text \<open>
  Rounds in which the snapshot is completed and the data reply is cut off after its first
  brace; the timeout error; a crawl whose status requests fail; two records on two lines.
\<close>

definition truncatedData :: "nat \<Rightarrow> poll" where
  \<open>truncatedData i =
     \<lparr>statusFetch = Inr \<lparr>replyOk = True, replyStatus = 200,
                          replyText = js ''{"status":"completed"}''\<rparr>,
      dataFetch = Inr \<lparr>replyOk = True, replyStatus = 200, replyText = js ''{''\<rparr>,
      elapsed = 200\<rparr>\<close>

definition timeoutError :: js_error where
  "timeoutError = Error ''Crawl timeout: Results not ready within 60 seconds''"

definition downEnv :: crawl_env where
  "downEnv =
     \<lparr>configured = True,
      subredditsFor = (\<lambda>location. if location = js ''ottawa'' then Some [js ''ottawa''] else None),
      trigger = Inr (js ''s_1''),
      snapshotPolls = (\<lambda>i. \<lparr>statusFetch = Inl (Error ''fetch failed''),
                              dataFetch = Inl (Error ''fetch failed''), elapsed = 100\<rparr>),
      processRedditResults = (\<lambda>results. Inr [])\<rparr>"

definition twoRecords :: "(jsstring \<times> jsstring) list" where
  \<open>twoRecords = [([], js ''{"a":1}''), ([NEWLINE], js ''{"b":2}'')]\<close>

text \<open>
  Two posts on two lines, the first with a closing brace inside a string; rounds in which
  that text is the status reply itself, and rounds in which it is the data of a completed
  snapshot.
\<close>

definition lostRecordText :: jsstring where
  \<open>lostRecordText = js ''{"post_id":"p1","t":"a}"}\<newline>{"post_id":"p2"}''\<close>

definition directPosts :: "nat \<Rightarrow> poll" where
  "directPosts i =
     \<lparr>statusFetch = Inr \<lparr>replyOk = True, replyStatus = 200, replyText = lostRecordText\<rparr>,
      dataFetch = Inl (Error ''not requested''),
      elapsed = 200\<rparr>"

definition completedPosts :: "nat \<Rightarrow> poll" where
  \<open>completedPosts i =
     \<lparr>statusFetch = Inr \<lparr>replyOk = True, replyStatus = 200,
                          replyText = js ''{"status":"completed"}''\<rparr>,
      dataFetch = Inr \<lparr>replyOk = True, replyStatus = 200, replyText = lostRecordText\<rparr>,
      elapsed = 200\<rparr>\<close>

text \<open>What a line of the direct reply contributes.\<close>

definition postOf :: "(jsstring \<Rightarrow> json option) \<Rightarrow> jsstring \<Rightarrow> json option" where
  "postOf parse line =
     (case parse (trim line) of
        None \<Rightarrow> None
      | Some post \<Rightarrow> if truthyJson (field (js ''post_id'') post) then Some post else None)"

section \<open>Media key validation (GET /api/audio/sign/:s3Key and GET /api/audio/s3/*)\<close>

text \<open>
  What the routes talk to: the signer of the object store, \<^verbatim>\<open>fetch\<close> on the signed URL,
  the streaming of the fetched body to the client, the directory of local audio files of
  the legacy route (\<open>None\<close>: no such file) and the router's \<^verbatim>\<open>decodeURIComponent\<close> of a
  path parameter (\<open>None\<close>: a malformed escape). The first three may throw.
\<close>

abbreviation SLASH :: jschar where "SLASH \<equiv> 47"

record http_response =
  ok :: bool
  status :: nat
  statusText :: jsstring
  payload :: buffer

record media_env =
  getSignedUrl :: "jsstring \<Rightarrow> nat \<Rightarrow> js_error + jsstring"
  fetch :: "jsstring \<Rightarrow> js_error + http_response"
  pipe :: "buffer \<Rightarrow> js_error + unit"
  localFile :: "jsstring \<Rightarrow> jsstring \<Rightarrow> jsstring \<Rightarrow> buffer option"
  decodeURIComponent :: "jsstring \<Rightarrow> jsstring option"

text \<open>
  What a route has produced when it answers: signed URLs issued, URLs fetched, bytes of
  the object store sent to the client, a local file sent; and the answer itself.
\<close>

datatype media_effect =
    SignedUrlIssued jsstring nat
  | Fetched jsstring
  | BytesProxied buffer
  | LocalFileSent buffer

datatype reply_body =
    ErrorJson string
  | SignedUrlJson jsstring
  | Streamed

record reply =
  code :: nat
  answer :: reply_body
  effects :: "media_effect list"

text \<open>
  The check of the sign handler and of the proxy handler:
  \<^verbatim>\<open>keyParts.length !== 3 || !keyParts[2].endsWith('.pcm')\<close>.
\<close>

definition invalidKeyFormat :: "jsstring \<Rightarrow> bool" where
  "invalidKeyFormat s3Key =
     (let keyParts = splitOn SLASH s3Key
      in length keyParts \<noteq> 3 \<or> \<not> endsWith (keyParts ! 2) (js ''.pcm''))"

text \<open>The handler of \<^verbatim>\<open>GET /api/audio/sign/:s3Key\<close>, on the decoded parameter.\<close>

definition signRoute :: "media_env \<Rightarrow> jsstring \<Rightarrow> reply" where
  "signRoute env s3Key =
     (if invalidKeyFormat s3Key then
        \<lparr>code = 400, answer = ErrorJson ''Invalid S3 key format'', effects = []\<rparr>
      else
        (case getSignedUrl env s3Key 3600 of
           Inl err \<Rightarrow>
             \<lparr>code = 500, answer = ErrorJson ''Failed to generate signed URL'', effects = []\<rparr>
         | Inr signedUrl \<Rightarrow>
             \<lparr>code = 200, answer = SignedUrlJson signedUrl,
              effects = [SignedUrlIssued s3Key 3600]\<rparr>))"









text \<open>
  The answer to a key that fails the check, and an environment in which everything
  succeeds and no local file exists. Its decoder knows no escapes: text without a percent
  sign decodes to itself, and any other text counts as malformed.
\<close>

definition invalidKeyReply :: reply where
  "invalidKeyReply = \<lparr>code = 400, answer = ErrorJson ''Invalid S3 key format'', effects = []\<rparr>"

definition demoEnv :: media_env where
  "demoEnv =
     \<lparr>getSignedUrl = (\<lambda>key ttl. Inr (js ''https://bucket/signed'')),
      fetch = (\<lambda>url. Inr \<lparr>ok = True, status = 200, statusText = js ''OK'', payload = [1, 2, 3]\<rparr>),
      pipe = (\<lambda>bytes. Inr ()),
      localFile = (\<lambda>uid chatId filename. None),
      decodeURIComponent = (\<lambda>s. if 37 \<in> set s then None else Some s)\<rparr>"

section \<open>convertPCMToWAV (video generation service)\<close>

text \<open>
  A Node \<^verbatim>\<open>Buffer\<close> is a list of bytes. \<^verbatim>\<open>Buffer.alloc n\<close> is zero filled.
  \<^verbatim>\<open>buf.write(s, off)\<close> stores the bytes of an ASCII string from \<open>off\<close> on, as many as fit
  (an update beyond the end of a list changes nothing, as in Node), and throws when \<open>off\<close>
  is beyond the buffer. \<^verbatim>\<open>writeUInt32LE\<close> and \<^verbatim>\<open>writeUInt16LE\<close> throw
  \<^verbatim>\<open>ERR_OUT_OF_RANGE\<close> (a RangeError) when the value is not an unsigned integer of that
  width or the offset leaves no room, and otherwise store the value least significant byte
  first. \<^verbatim>\<open>Buffer.concat\<close> allocates the sum of the lengths and throws when that exceeds
  the runtime's maximum buffer length \<^verbatim>\<open>buffer.constants.MAX_LENGTH\<close>, a constant of the
  Node version that is taken as the parameter \<open>kMaxLength\<close>.
\<close>

definition alloc :: "nat \<Rightarrow> buffer" where
  "alloc n = replicate n 0"

fun writeBytes :: "byte list \<Rightarrow> nat \<Rightarrow> buffer \<Rightarrow> buffer" where
  "writeBytes [] off buf = buf"
| "writeBytes (b # bs) off buf = writeBytes bs (Suc off) (buf[off := b])"

definition bufWrite :: "string \<Rightarrow> nat \<Rightarrow> buffer \<Rightarrow> js_error + buffer" where
  "bufWrite s off buf =
     (if off > length buf then Inl RangeError
      else Inr (writeBytes (map of_char s) off buf))"

definition leBytes :: "nat \<Rightarrow> nat \<Rightarrow> byte list" where
  "leBytes n v = map (\<lambda>i. of_nat (v div 256 ^ i)) [0..<n]"

definition writeUIntLE :: "nat \<Rightarrow> nat \<Rightarrow> nat \<Rightarrow> buffer \<Rightarrow> js_error + buffer" where
  "writeUIntLE n v off buf =
     (if v > 256 ^ n - 1 then Inl RangeError
      else if off + n > length buf then Inl RangeError
      else Inr (writeBytes (leBytes n v) off buf))"

abbreviation writeUInt32LE :: "nat \<Rightarrow> nat \<Rightarrow> buffer \<Rightarrow> js_error + buffer" where
  "writeUInt32LE \<equiv> writeUIntLE 4"
abbreviation writeUInt16LE :: "nat \<Rightarrow> nat \<Rightarrow> buffer \<Rightarrow> js_error + buffer" where
  "writeUInt16LE \<equiv> writeUIntLE 2"

definition concat2 :: "nat \<Rightarrow> buffer \<Rightarrow> buffer \<Rightarrow> js_error + buffer" where
  "concat2 kMaxLength a b =
     (if length a + length b > kMaxLength then Inl RangeError else Inr (a @ b))"

definition convertPCMToWAV :: "nat \<Rightarrow> buffer \<Rightarrow> js_error + buffer" where
  "convertPCMToWAV kMaxLength pcmBuffer =
     (let sampleRate = 24000;
          numChannels = 1;
          bitsPerSample = 16;
          byteRate = sampleRate * numChannels * bitsPerSample div 8;
          blockAlign = numChannels * bitsPerSample div 8;
          dataSize = length pcmBuffer;
          fileSize = 36 + dataSize;
          wavHeader = alloc 44
      in bindE (bufWrite ''RIFF'' 0 wavHeader) (\<lambda>h.
         bindE (writeUInt32LE fileSize 4 h) (\<lambda>h.
         bindE (bufWrite ''WAVE'' 8 h) (\<lambda>h.
         bindE (bufWrite ''fmt '' 12 h) (\<lambda>h.
         bindE (writeUInt32LE 16 16 h) (\<lambda>h.
         bindE (writeUInt16LE 1 20 h) (\<lambda>h.
         bindE (writeUInt16LE numChannels 22 h) (\<lambda>h.
         bindE (writeUInt32LE sampleRate 24 h) (\<lambda>h.
         bindE (writeUInt32LE byteRate 28 h) (\<lambda>h.
         bindE (writeUInt16LE blockAlign 32 h) (\<lambda>h.
         bindE (writeUInt16LE bitsPerSample 34 h) (\<lambda>h.
         bindE (bufWrite ''data'' 36 h) (\<lambda>h.
         bindE (writeUInt32LE dataSize 40 h) (\<lambda>h.
         concat2 kMaxLength h pcmBuffer))))))))))))))"

text \<open>Reading a header field back, and the bytes of an ASCII tag, to state the layout.\<close>

definition readUIntLE :: "nat \<Rightarrow> buffer \<Rightarrow> nat \<Rightarrow> nat" where
  "readUIntLE n buf off = (\<Sum>i\<leftarrow>[0..<n]. unat (buf ! (off + i)) * 256 ^ i)"

definition ascii :: "string \<Rightarrow> byte list" where
  "ascii s = map of_char s"

text \<open>The 44 header bytes for \<open>n\<close> bytes of samples, field by field.\<close>

definition wavHeaderFor :: "nat \<Rightarrow> buffer" where
  "wavHeaderFor n =
     ascii ''RIFF'' @ leBytes 4 (36 + n) @ ascii ''WAVE'' @ ascii ''fmt '' @ leBytes 4 16
     @ leBytes 2 1 @ leBytes 2 1 @ leBytes 4 24000 @ leBytes 4 48000 @ leBytes 2 2
     @ leBytes 2 16 @ ascii ''data'' @ leBytes 4 n"

section \<open>cleanResponseText (server)\<close>

text \<open>
  \<^verbatim>\<open>text.replace(/\s*\[[^\]]*\]\s*/g, ' ').replace(/\s+/g, ' ').trim()\<close>

  \<open>matchTag s\<close> is one attempt of the first pattern at the start of \<open>s\<close>: the greedy
  \<^verbatim>\<open>\s*\<close> takes the whole run of white space (giving some back never helps, the next
  character would still be white space), then \<^verbatim>\<open>[\<close>, then everything up to the first
  \<^verbatim>\<open>]\<close>, which must exist, then the run of white space after it. The result is the rest of
  the string after the match. \<open>stripTags\<close> is the global replace: scan from the left,
  replace a match by one space and go on after it, otherwise copy one code unit.
\<close>

definition matchTag :: "jsstring \<Rightarrow> jsstring option" where
  "matchTag s =
     (case dropWhile isSpace s of
        [] \<Rightarrow> None
      | c # s2 \<Rightarrow>
          if c = LBR then
            (case dropWhile (\<lambda>d. d \<noteq> RBR) s2 of
               [] \<Rightarrow> None
             | _ # s4 \<Rightarrow> Some (dropWhile isSpace s4))
          else None)"

lemma matchTag_shorter: "matchTag s = Some r \<Longrightarrow> length r < length s"
proof -
  assume a: "matchTag s = Some r"
  have l: "\<And>P xs. length (dropWhile P xs) \<le> length xs" by (simp add: length_dropWhile_le)
  from a obtain c s2 where s1: "dropWhile isSpace s = c # s2"
    by (auto simp: matchTag_def split: list.splits)
  with a obtain d s4 where s3: "dropWhile (\<lambda>d. d \<noteq> RBR) s2 = d # s4" and r: "r = dropWhile isSpace s4"
    by (auto simp: matchTag_def split: list.splits if_splits)
  have "length r \<le> length s4" using r l by simp
  moreover have "length s4 < length s2" using l[of "\<lambda>d. d \<noteq> RBR" s2] s3 by simp
  moreover have "length s2 < length s" using l[of isSpace s] s1 by simp
  ultimately show ?thesis by simp
qed

function stripTags :: "jsstring \<Rightarrow> jsstring" where
  "stripTags [] = []"
| "stripTags (c # cs) =
     (case matchTag (c # cs) of
        Some rest \<Rightarrow> SP # stripTags rest
      | None \<Rightarrow> c # stripTags cs)"
  by pat_completeness auto
termination
  by (relation "measure length") (auto dest: matchTag_shorter)

function collapseSpaces :: "jsstring \<Rightarrow> jsstring" where
  "collapseSpaces [] = []"
| "collapseSpaces (c # cs) =
     (if isSpace c then SP # collapseSpaces (dropWhile isSpace cs)
      else c # collapseSpaces cs)"
  by pat_completeness auto
termination
  by (relation "measure length") (auto simp: length_dropWhile_le less_Suc_eq_le)

definition cleanResponseText :: "jsstring \<Rightarrow> jsstring" where
  "cleanResponseText text =
     (if text = [] then text else trim (collapseSpaces (stripTags text)))"

text \<open>
  Two predicates used in the proofs: \<open>noTag\<close>, no \<^verbatim>\<open>[\<close> is followed anywhere later by a
  \<^verbatim>\<open>]\<close>; \<open>compact\<close>, every white-space code unit is a single U+0020 not followed by
  white space.
\<close>

fun noTag :: "jsstring \<Rightarrow> bool" where
  "noTag [] = True"
| "noTag (c # cs) = (if c = LBR then RBR \<notin> set cs else noTag cs)"

fun compact :: "jsstring \<Rightarrow> bool" where
  "compact [] = True"
| "compact (c # cs) =
     (if isSpace c then c = SP \<and> (case cs of [] \<Rightarrow> True | d # _ \<Rightarrow> \<not> isSpace d) \<and> compact cs
      else compact cs)"

section \<open>One chat turn (POST /api/chat/text and POST /api/chat/audio)\<close>

text \<open>
  What \<^verbatim>\<open>generateVideo\<close> of the video service meets outside: the workflow file is read and
  parsed or this throws; the socket to ComfyUI opens within the 30 seconds of
  \<^verbatim>\<open>waitForConnection\<close> or not; the two uploads; the server's answer to \<^verbatim>\<open>POST /prompt\<close>;
  the outcome of the interrupt request, should the bridge issue one; the events that the
  socket delivers after the submission, in order, after the last of which nothing more
  arrives (the engine has stopped, or the connection has closed: \<^verbatim>\<open>onclose\<close> only logs);
  the download of the generated file named in a save message; the upload of the video,
  which returns its key.
\<close>

record video_env =
  loadWorkflow :: "js_error + unit"
  connectionOpens :: bool
  uploadAudio :: "buffer \<Rightarrow> js_error + unit"
  uploadImage :: "buffer \<Rightarrow> js_error + unit"
  submitPrompt :: fetch_result
  interruptPost :: "js_error + unit"
  socketEvents :: "ws_event list"
  downloadGeneratedVideo :: "ws_message \<Rightarrow> js_error + buffer"
  uploadVideoFile :: "buffer \<Rightarrow> jsstring \<Rightarrow> jsstring \<Rightarrow> js_error + jsstring"

text \<open>
  A promise is resolved, rejected, or still pending: \<open>Some (Inr v)\<close>, \<open>Some (Inl e)\<close>,
  \<open>None\<close>. The promise of \<^verbatim>\<open>generateVideo\<close> is settled by its callbacks only:
  \<^verbatim>\<open>onSaveCallback\<close> downloads and uploads the video and resolves with the key, or rejects
  with what was thrown; \<^verbatim>\<open>onMessageCallback\<close> rejects on a message of type
  \<^verbatim>\<open>execution_error\<close> and does nothing otherwise. The first settlement counts. The
  download and upload of a save callback are taken to end before the next event is handled.
\<close>

type_synonym 'a promise = "(js_error + 'a) option"

fun settle :: "video_env \<Rightarrow> jsstring \<Rightarrow> jsstring \<Rightarrow> bridge_effect list \<Rightarrow> jsstring promise" where
  "settle env uid chatId [] = None"
| "settle env uid chatId (SaveCallback message p # later) =
     (case downloadGeneratedVideo env message of
        Inl error \<Rightarrow> Some (Inl error)
      | Inr videoData \<Rightarrow>
          (case uploadVideoFile env videoData uid chatId of
             Inl error \<Rightarrow> Some (Inl error)
           | Inr videoKey \<Rightarrow> Some (Inr videoKey)))"
| "settle env uid chatId (MessageCallback message p # later) =
     (if mtype message = js ''execution_error''
      then Some (Inl (Error ''ComfyUI execution failed''))
      else settle env uid chatId later)"
| "settle env uid chatId (InterruptRequested p # later) = settle env uid chatId later"

text \<open>
  After a submission that the bridge accepted, the events are handled one by one by the
  bridge's \<^verbatim>\<open>onmessage\<close> until a callback settles the promise. Nothing else settles it:
  there is no timer, so when the events end before that, the promise stays pending.
\<close>

fun awaitCallbacks ::
  "video_env \<Rightarrow> jsstring \<Rightarrow> jsstring \<Rightarrow> comfy \<Rightarrow> ws_event list \<Rightarrow> jsstring promise" where
  "awaitCallbacks env uid chatId comfyUI [] = None"
| "awaitCallbacks env uid chatId comfyUI (event # later) =
     (case onmessage comfyUI event of
        (comfyUI', called) \<Rightarrow>
          (case settle env uid chatId called of
             None \<Rightarrow> awaitCallbacks env uid chatId comfyUI' later
           | Some outcome \<Rightarrow> Some outcome))"

text \<open>
  \<^verbatim>\<open>generateVideo\<close>: the promise, and the rejection that nothing handles, if there is one.
  Every step before the submission, and a submission that \<^verbatim>\<open>queue\<close> rejects, ends in the
  \<^verbatim>\<open>catch\<close> that rejects the promise. When \<^verbatim>\<open>queue\<close> has issued an interrupt, the promise
  of \<^verbatim>\<open>interupt()\<close> has no handler, and its rejection is an unhandled rejection.
\<close>

definition generateVideo ::
  "video_env \<Rightarrow> buffer \<Rightarrow> buffer \<Rightarrow> jsstring \<Rightarrow> jsstring \<Rightarrow> jsstring promise \<times> js_error option" where
  "generateVideo env audioBuffer imageBuffer uid chatId =
     (case loadWorkflow env of
        Inl error \<Rightarrow> (Some (Inl error), None)
      | Inr _ \<Rightarrow>
          if \<not> connectionOpens env
          then (Some (Inl (Error ''ComfyUI connection timeout'')), None)
          else
            (case uploadAudio env audioBuffer of
               Inl error \<Rightarrow> (Some (Inl error), None)
             | Inr _ \<Rightarrow>
                 (case uploadImage env imageBuffer of
                    Inl error \<Rightarrow> (Some (Inl error), None)
                  | Inr _ \<Rightarrow>
                      (case queue bridge0 (submitPrompt env) of
                         (comfyUI, requested, Inl error) \<Rightarrow>
                           (Some (Inl error),
                            if requested = [] then None
                            else (case interruptPost env of
                                    Inl err \<Rightarrow> Some err
                                  | Inr _ \<Rightarrow> None))
                       | (comfyUI, requested, Inr responseData) \<Rightarrow>
                           (awaitCallbacks env uid chatId comfyUI (socketEvents env), None)))))"

text \<open>
  The two routes differ in how they get the user's text (the request's message, or its
  transcription) and are the same text from the audio stage on. The model starts where
  they meet. \<open>stagesBefore\<close> is the outcome of everything before: persona resolution,
  chat history, transcription and text generation, any of which may throw to the route's
  outer \<^verbatim>\<open>catch\<close>; when they succeed they give the persona, the user's text and the raw
  response text. The other fields are what the later stages get from outside:
  the outcome of the audio \<^verbatim>\<open>try\<close> block as a whole (the keys assigned to
  \<^verbatim>\<open>audioUrl\<close> and \<^verbatim>\<open>userAudioUrl\<close>, or an exception), the signer and the two fetches
  of the video block, what the video service meets, the signer of the final URLs, the
  runtime's maximum buffer length and the database. The process handles an unhandled
  rejection with \<^verbatim>\<open>process.exit(1)\<close>. The failed interrupt request and the rest of the turn
  run side by side; of the moments at which the exit can fall the model has the first and
  the last: while the turn waits for the first database request of
  \<^verbatim>\<open>saveConversation\<close>, or after the answer has been sent.
\<close>

datatype exit_moment = BeforeSave | AfterAnswer

record turn_env =
  stagesBefore :: "js_error + persona_row \<times> jsstring \<times> jsstring"
  synthesizeAudio :: "js_error + jsstring option \<times> jsstring option"
  signForVideo :: "jsstring \<Rightarrow> js_error + jsstring"
  fetchAudio :: "jsstring \<Rightarrow> js_error + buffer"
  fetchImage :: "jsstring \<Rightarrow> js_error + buffer"
  video :: video_env
  exitMoment :: exit_moment
  signUrl :: "jsstring \<Rightarrow> js_error + jsstring"
  maxBufferLength :: nat
  database :: db_env

text \<open>
  The JSON body of the answer; the answer, \<open>NoResponse\<close> when the turn ends without one;
  and what the turn did on the way.
\<close>

record turn_body =
  transcribedText :: jsstring
  responseText :: jsstring
  signedAudioUrl :: "jsstring option"
  signedUserAudioUrl :: "jsstring option"
  signedVideoUrl :: "jsstring option"
  replyChatId :: jsstring
  isMultiUserMode :: bool

datatype turn_response = Json200 turn_body | Json500 js_error | NoResponse

datatype turn_effect = VideoStageEntered | VideoJobSubmitted | ConversationSaved | ProcessExit

text \<open>A string or \<^verbatim>\<open>null\<close> in a condition: \<^verbatim>\<open>null\<close> and the empty string are falsy.\<close>

definition truthy :: "jsstring option \<Rightarrow> bool" where
  "truthy v = (case v of None \<Rightarrow> False | Some s \<Rightarrow> s \<noteq> [])"

text \<open>
  The inner \<^verbatim>\<open>try\<close> of the video block: without an image URL, after any exception, and
  for an image of fewer than 1000 bytes, the buffer is \<^verbatim>\<open>null\<close>.
\<close>

definition personaImageBuffer :: "turn_env \<Rightarrow> persona_row \<Rightarrow> buffer option" where
  "personaImageBuffer env selectedPersona =
     (case image_url selectedPersona of
        None \<Rightarrow> None
      | Some u \<Rightarrow>
          if u = [] then None
          else (case fetchImage env u of
                  Inl imageError \<Rightarrow> None
                | Inr bytes \<Rightarrow> if length bytes < 1000 then None else Some bytes))"

text \<open>
  The body of the video block's \<^verbatim>\<open>try\<close>: sign and fetch the audio, get the persona image,
  and only with an image convert the audio and await the video service. The result is
  how the body ends: with the value assigned to \<^verbatim>\<open>videoUrl\<close> (\<open>Some (Inr None)\<close> when
  there is no image: nothing is assigned), with an exception, or not at all (\<open>None\<close>:
  the awaited promise stays pending); then the unhandled rejection, if any, and what was
  done.
\<close>

definition videoStage ::
  "turn_env \<Rightarrow> persona_row \<Rightarrow> jsstring \<Rightarrow> jsstring \<Rightarrow> jsstring
     \<Rightarrow> (jsstring option) promise \<times> js_error option \<times> turn_effect list" where
  "videoStage env selectedPersona audioKey uid chatId =
     (case signForVideo env audioKey of
        Inl e \<Rightarrow> (Some (Inl e), None, [VideoStageEntered])
      | Inr audioS3Data \<Rightarrow>
          (case fetchAudio env audioS3Data of
             Inl e \<Rightarrow> (Some (Inl e), None, [VideoStageEntered])
           | Inr audioBuffer \<Rightarrow>
               (case personaImageBuffer env selectedPersona of
                  None \<Rightarrow> (Some (Inr None), None, [VideoStageEntered])
                | Some imageBuffer \<Rightarrow>
                    (case convertPCMToWAV (maxBufferLength env) audioBuffer of
                       Inl e \<Rightarrow> (Some (Inl e), None, [VideoStageEntered])
                     | Inr wavAudioBuffer \<Rightarrow>
                         (case generateVideo (video env) wavAudioBuffer imageBuffer uid chatId of
                            (settled, unhandled) \<Rightarrow>
                              (map_option (map_sum id Some) settled, unhandled,
                               [VideoStageEntered, VideoJobSubmitted]))))))"

text \<open>
  The final signing, in one \<^verbatim>\<open>try\<close>: the three keys in order, each only when truthy; an
  exception leaves the URLs not yet assigned \<^verbatim>\<open>null\<close>.
\<close>

definition signIfPresent :: "turn_env \<Rightarrow> jsstring option \<Rightarrow> js_error + jsstring option" where
  "signIfPresent env key =
     (if truthy key
      then (case signUrl env (the key) of Inl e \<Rightarrow> Inl e | Inr url \<Rightarrow> Inr (Some url))
      else Inr None)"

definition signAll ::
  "turn_env \<Rightarrow> jsstring option \<Rightarrow> jsstring option \<Rightarrow> jsstring option
     \<Rightarrow> jsstring option \<times> jsstring option \<times> jsstring option" where
  "signAll env audioKey userAudioKey videoKey =
     (case signIfPresent env audioKey of
        Inl signError \<Rightarrow> (None, None, None)
      | Inr a \<Rightarrow>
          (case signIfPresent env userAudioKey of
             Inl signError \<Rightarrow> (a, None, None)
           | Inr u \<Rightarrow>
               (case signIfPresent env videoKey of
                  Inl signError \<Rightarrow> (a, u, None)
                | Inr v \<Rightarrow> (a, u, v))))"

text \<open>The audio \<^verbatim>\<open>try\<close> block: after an exception both keys are still \<^verbatim>\<open>null\<close>.\<close>

definition audioStage :: "turn_env \<Rightarrow> jsstring option \<times> jsstring option" where
  "audioStage env =
     (case synthesizeAudio env of
        Inl audioError \<Rightarrow> (None, None)
      | Inr keys \<Rightarrow> keys)"

text \<open>
  \<^verbatim>\<open>if (videoEnabled && audioUrl) { try { ... } catch (videoError) { ... } }\<close>: the value of
  \<^verbatim>\<open>videoUrl\<close> after the block, or \<open>None\<close> when the block is never left.
\<close>

definition videoBlock ::
  "turn_env \<Rightarrow> persona_row \<Rightarrow> bool \<Rightarrow> jsstring option \<Rightarrow> jsstring \<Rightarrow> jsstring
     \<Rightarrow> (jsstring option) option \<times> js_error option \<times> turn_effect list" where
  "videoBlock env selectedPersona videoEnabled audioKey uid chatId =
     (if videoEnabled \<and> truthy audioKey
      then (case videoStage env selectedPersona (the audioKey) uid chatId of
              (None, unhandled, effs) \<Rightarrow> (None, unhandled, effs)
            | (Some (Inl videoError), unhandled, effs) \<Rightarrow> (Some None, unhandled, effs)
            | (Some (Inr key), unhandled, effs) \<Rightarrow> (Some key, unhandled, effs))
      else (Some None, None, []))"

text \<open>
  The rest of the turn after the video block: save, sign, answer. \<^verbatim>\<open>saveConversation\<close>
  does not throw, and the chat id of the answer is \<^verbatim>\<open>savedChat?.id || currentChatId\<close>.
\<close>

definition saveAndAnswer ::
  "turn_env \<Rightarrow> chats \<Rightarrow> jsstring \<Rightarrow> jsstring \<Rightarrow> persona_row \<Rightarrow> jsstring \<Rightarrow> jsstring
     \<Rightarrow> jsstring option \<Rightarrow> jsstring option \<Rightarrow> jsstring option \<Rightarrow> turn_body \<times> chats" where
  "saveAndAnswer env db uid currentChatId selectedPersona userText rawResponseText
       audioKey userAudioKey videoKey =
     (let (savedChat, db') =
            saveConversation (database env) db uid currentChatId userText rawResponseText
              selectedPersona audioKey userAudioKey videoKey;
          (signedAudio, signedUserAudio, signedVideo) =
            signAll env audioKey userAudioKey videoKey
      in (\<lparr>transcribedText = userText,
           responseText = cleanResponseText rawResponseText,
           signedAudioUrl = signedAudio,
           signedUserAudioUrl = signedUserAudio,
           signedVideoUrl = signedVideo,
           replyChatId = (case savedChat of
                            None \<Rightarrow> currentChatId
                          | Some row \<Rightarrow> if chat_id row = [] then currentChatId
                                        else chat_id row),
           isMultiUserMode = (persona_name selectedPersona = js ''User'')\<rparr>,
          db'))"

text \<open>
  The turn: the answer, the chats table afterwards and what was done. A video block that
  is never left leaves the request without an answer: neither route sets a time limit,
  and the outer \<^verbatim>\<open>catch\<close> is not reached.
\<close>

definition chatTurn ::
  "turn_env \<Rightarrow> chats \<Rightarrow> jsstring \<Rightarrow> jsstring \<Rightarrow> bool
     \<Rightarrow> turn_response \<times> chats \<times> turn_effect list" where
  "chatTurn env db uid currentChatId videoEnabled =
     (case stagesBefore env of
        Inl error \<Rightarrow> (Json500 error, db, [])
      | Inr (selectedPersona, userText, rawResponseText) \<Rightarrow>
          (case audioStage env of
             (audioKey, userAudioKey) \<Rightarrow>
               (case videoBlock env selectedPersona videoEnabled audioKey uid currentChatId of
                  (None, unhandled, videoEffects) \<Rightarrow>
                    (NoResponse, db,
                     videoEffects @ (if unhandled = None then [] else [ProcessExit]))
                | (Some videoKey, unhandled, videoEffects) \<Rightarrow>
                    if unhandled \<noteq> None \<and> exitMoment env = BeforeSave
                    then (NoResponse, db, videoEffects @ [ProcessExit])
                    else
                      (case saveAndAnswer env db uid currentChatId selectedPersona userText
                              rawResponseText audioKey userAudioKey videoKey of
                         (body, db') \<Rightarrow>
                           (Json200 body, db',
                            videoEffects @ [ConversationSaved]
                            @ (if unhandled = None then [] else [ProcessExit]))))))"

text \<open>
  Three environments in which the stages before, the audio synthesis, the fetches and the
  uploads succeed. In the first the video job fails: the socket reports an execution
  error. In the second the engine accepts the job, reports its start and is never heard of
  again. In the third the engine's answer lists an error that affects save node 131, and
  the interrupt request that the bridge then issues fails at once.
\<close>

definition executionStart :: ws_message where
  "executionStart = \<lparr>mtype = js ''execution_start'', data_prompt_id = Some (js ''p1''),
                     data_node = None, queue_remaining = None\<rparr>"

definition executionError :: ws_message where
  "executionError = \<lparr>mtype = js ''execution_error'', data_prompt_id = Some (js ''p1''),
                     data_node = Some (js ''125''), queue_remaining = None\<rparr>"

definition comfyEnv :: video_env where
  "comfyEnv =
     \<lparr>loadWorkflow = Inr (),
      connectionOpens = True,
      uploadAudio = (\<lambda>bytes. Inr ()),
      uploadImage = (\<lambda>bytes. Inr ()),
      submitPrompt = Responded True 200 (Some emptyErrors),
      interruptPost = Inr (),
      socketEvents = [Text (Some executionStart), Text (Some executionError)],
      downloadGeneratedVideo = (\<lambda>message. Inr (replicate 1000 0)),
      uploadVideoFile = (\<lambda>bytes uid chatId. Inr (uid @ js ''/'' @ chatId @ js ''/v.mp4''))\<rparr>"

definition videoEnv :: turn_env where
  "videoEnv =
     \<lparr>stagesBefore = Inr (persona0, js ''hi'', js ''[smiles] hello''),
      synthesizeAudio = Inr (Some (js ''U1/C1/a.pcm''), None),
      signForVideo = (\<lambda>key. Inr (js ''https://bucket/signed'')),
      fetchAudio = (\<lambda>url. Inr [1, 2, 3, 4]),
      fetchImage = (\<lambda>url. Inr (replicate 1000 7)),
      video = comfyEnv,
      exitMoment = BeforeSave,
      signUrl = (\<lambda>key. Inr (js ''https://bucket/signed'')),
      maxBufferLength = 4294967296,
      database = env0\<rparr>"

definition silentEnv :: turn_env where
  "silentEnv = videoEnv\<lparr>video := comfyEnv\<lparr>socketEvents := [Text (Some executionStart)]\<rparr>\<rparr>"

definition interruptEnv :: turn_env where
  "interruptEnv =
     videoEnv\<lparr>video := comfyEnv\<lparr>submitPrompt := Responded True 200 (Some saveNodeErrors),
                                interruptPost := Inl (Error ''fetch failed'')\<rparr>\<rparr>"

text \<open>The video block's \<^verbatim>\<open>try\<close> ends in an exception.\<close>

definition videoFails :: "turn_env \<Rightarrow> persona_row \<Rightarrow> jsstring \<Rightarrow> jsstring \<Rightarrow> jsstring \<Rightarrow> bool" where
  "videoFails env selectedPersona audioKey uid chatId =
     (case fst (videoStage env selectedPersona audioKey uid chatId) of
        Some (Inl e) \<Rightarrow> True
      | _ \<Rightarrow> False)"

section \<open>Properties of saveConversation\<close>

lemma saveConversation_Some:
  assumes "saveConversation env db uid chatId um rt p a ua v = (Some row, db')"
  shows "db' = db(chatId \<mapsto> row)"
    and "messages row = Some (storedMessages db chatId @ [newMessage env um ua, assistantMessage env rt p a v])"
  using assms
  by (auto simp: saveConversation_def Let_def storedMessages_def selectChat_def orEmpty_def
      split: if_splits option.splits)

lemma saveConversation_None:
  "saveConversation env db uid chatId um rt p a ua v = (None, db') \<Longrightarrow> db' = db"
  by (auto simp: saveConversation_def Let_def split: if_splits option.splits)

lemma saveConversation_stored:
  "storedMessages (snd (saveConversation env db uid chatId um rt p a ua v)) k =
     (if fst (saveConversation env db uid chatId um rt p a ua v) \<noteq> None \<and> k = chatId
      then storedMessages db k @ [newMessage env um ua, assistantMessage env rt p a v]
      else storedMessages db k)"
proof (cases "saveConversation env db uid chatId um rt p a ua v")
  case (Pair res db')
  show ?thesis
  proof (cases res)
    case None
    with Pair have "db' = db" by (simp add: saveConversation_None)
    with Pair None show ?thesis by simp
  next
    case (Some row)
    with Pair have "db' = db(chatId \<mapsto> row)"
      and "messages row = Some (storedMessages db chatId @ [newMessage env um ua, assistantMessage env rt p a v])"
      by (simp_all add: saveConversation_Some)
    with Pair Some show ?thesis by (simp add: storedMessages_def orEmpty_def)
  qed
qed

text \<open>
  C1. Every turn that saveConversation saves appends exactly two messages to the chat: one
  with role user, then one with role assistant; the assistant message carries the persona's
  name and id, the user message carries neither.
\<close>

theorem saveConversation_appends_turn:
  assumes "saveConversation env db uid chatId um rt p a ua v = (Some row, db')"
  shows "\<exists>u s. storedMessages db' chatId = storedMessages db chatId @ [u, s]
           \<and> length (storedMessages db' chatId) = length (storedMessages db chatId) + 2
           \<and> role u = User \<and> content u = um \<and> persona u = None \<and> personaId u = None
           \<and> role s = Assistant \<and> content s = rt
           \<and> persona s = Some (persona_name p) \<and> personaId s = Some (persona_id p)"
proof -
  have "storedMessages db' chatId =
          storedMessages db chatId @ [newMessage env um ua, assistantMessage env rt p a v]"
    using saveConversation_stored [of env db uid chatId um rt p a ua v chatId] assms by simp
  then show ?thesis
    by (intro exI [of _ "newMessage env um ua"] exI [of _ "assistantMessage env rt p a v"])
       (simp add: newMessage_def assistantMessage_def)
qed

lemma turn1_eval: "turn1 = (Some chat1, [js ''C1'' \<mapsto> chat1])"
  by (simp add: turn1_def chat1_def saveConversation_def selectChat_def Let_def env0_def
      persona0_def js_def)

theorem saveConversation_appends_turn_witness:
  "\<exists>row db'. turn1 = (Some row, db')
     \<and> (\<exists>u s. storedMessages db' (js ''C1'') = storedMessages Map.empty (js ''C1'') @ [u, s]
           \<and> length (storedMessages db' (js ''C1'')) = length (storedMessages Map.empty (js ''C1'')) + 2
           \<and> role u = User \<and> content u = js ''hi'' \<and> persona u = None \<and> personaId u = None
           \<and> role s = Assistant \<and> content s = js ''hello''
           \<and> persona s = Some (persona_name persona0) \<and> personaId s = Some (persona_id persona0))"
  using turn1_eval saveConversation_appends_turn [of env0 Map.empty "js ''U1''" "js ''C1''" "js ''hi''"
      "js ''hello''" persona0 "Some (js ''U1/C1/a.pcm'')" None None]
  unfolding turn1_def by blast

text \<open>
  C2. When no database request fails: saving a turn under a chat id that does not exist
  creates a chat row with that id, seeded with exactly the two new messages; saving under
  the id of an existing chat of that user appends exactly the two new messages to the ones
  it had. And in every case, failures included, the messages stored before under any chat
  id are still there afterwards, in place: nothing is overwritten.
\<close>

theorem saveConversation_upsert_by_append:
  "(db chatId = None \<and> \<not> selectError env \<and> \<not> insertError env \<longrightarrow>
      (\<exists>row. saveConversation env db uid chatId um rt p a ua v = (Some row, db(chatId \<mapsto> row))
         \<and> chat_id row = chatId \<and> user_id row = uid
         \<and> messages row = Some [newMessage env um ua, assistantMessage env rt p a v]))
   \<and> (db chatId = Some old \<and> user_id old = uid \<and> \<not> selectError env \<and> \<not> updateError env \<longrightarrow>
      (\<exists>row. saveConversation env db uid chatId um rt p a ua v = (Some row, db(chatId \<mapsto> row))
         \<and> messages row =
             Some (orEmpty (messages old) @ [newMessage env um ua, assistantMessage env rt p a v])))
   \<and> take (length (storedMessages db k))
        (storedMessages (snd (saveConversation env db uid chatId um rt p a ua v)) k)
      = storedMessages db k"
proof (intro conjI impI)
  assume "db chatId = None \<and> \<not> selectError env \<and> \<not> insertError env"
  then show "\<exists>row. saveConversation env db uid chatId um rt p a ua v = (Some row, db(chatId \<mapsto> row))
         \<and> chat_id row = chatId \<and> user_id row = uid
         \<and> messages row = Some [newMessage env um ua, assistantMessage env rt p a v]"
    by (simp add: saveConversation_def selectChat_def Let_def)
next
  assume "db chatId = Some old \<and> user_id old = uid \<and> \<not> selectError env \<and> \<not> updateError env"
  then show "\<exists>row. saveConversation env db uid chatId um rt p a ua v = (Some row, db(chatId \<mapsto> row))
         \<and> messages row =
             Some (orEmpty (messages old) @ [newMessage env um ua, assistantMessage env rt p a v])"
    by (simp add: saveConversation_def selectChat_def Let_def)
next
  show "take (length (storedMessages db k))
        (storedMessages (snd (saveConversation env db uid chatId um rt p a ua v)) k)
      = storedMessages db k"
    by (simp add: saveConversation_stored)
qed

theorem saveConversation_upsert_by_append_witness:
  "Map.empty (js ''C1'') = (None :: chat option) \<and> \<not> selectError env0 \<and> \<not> insertError env0
   \<and> (\<exists>row. turn1 = (Some row, [js ''C1'' \<mapsto> row])
          \<and> chat_id row = js ''C1'' \<and> user_id row = js ''U1''
          \<and> messages row = Some [newMessage env0 (js ''hi'') None,
                                  assistantMessage env0 (js ''hello'') persona0
                                    (Some (js ''U1/C1/a.pcm'')) None])
   \<and> snd turn1 (js ''C1'') = Some chat1 \<and> user_id chat1 = js ''U1'' \<and> \<not> updateError env0
   \<and> (\<exists>row. turn2 = (Some row, (snd turn1)(js ''C1'' \<mapsto> row))
          \<and> messages row = Some (orEmpty (messages chat1)
                @ [newMessage env0 (js ''more'') None,
                   assistantMessage env0 (js ''sure'') persona0 None None]))"
proof -
  have e: "Map.empty (js ''C1'') = (None :: chat option)" "\<not> selectError env0"
    "\<not> insertError env0" "\<not> updateError env0"
    by (simp_all add: env0_def)
  have c: "snd turn1 (js ''C1'') = Some chat1" "user_id chat1 = js ''U1''"
    by (simp_all add: turn1_eval chat1_def)
  show ?thesis
    using e c
      saveConversation_upsert_by_append [where db = Map.empty and chatId = "js ''C1''"
        and env = env0 and uid = "js ''U1''" and um = "js ''hi''" and rt = "js ''hello''"
        and p = persona0 and a = "Some (js ''U1/C1/a.pcm'')" and ua = None and v = None]
      saveConversation_upsert_by_append [where db = "snd turn1" and chatId = "js ''C1''"
        and old = chat1 and env = env0 and uid = "js ''U1''" and um = "js ''more''"
        and rt = "js ''sure''" and p = persona0 and a = None and ua = None and v = None]
    unfolding turn1_def [symmetric] turn2_def [symmetric] by blast
qed

text \<open>The scenario of the specification: two turns on one chat id give one chat of four messages, in call order.\<close>

lemma two_turns_four_messages:
  "storedMessages (snd turn2) (js ''C1'') =
     [newMessage env0 (js ''hi'') None,
      assistantMessage env0 (js ''hello'') persona0 (Some (js ''U1/C1/a.pcm'')) None,
      newMessage env0 (js ''more'') None,
      assistantMessage env0 (js ''sure'') persona0 None None]
   \<and> dom (snd turn2) = {js ''C1''}"
  by (simp add: turn2_def turn1_eval saveConversation_def selectChat_def Let_def storedMessages_def
      orEmpty_def chat1_def env0_def)

section \<open>Properties of the job bridge\<close>

lemma queue_ok:
  "queue c (Responded True httpStatus (Some responseData)) =
     (case node_errors responseData of
        None \<Rightarrow> (c\<lparr>promptId := assignedPrompt c responseData\<rparr>, [], Inl TypeError)
      | Some errs \<Rightarrow>
          if saveNodeAffected (api_save c) errs
          then (c\<lparr>promptId := assignedPrompt c responseData\<rparr>,
                [InterruptRequested (assignedPrompt c responseData)],
                Inl (Error ''Save node affected by errors.''))
          else (c\<lparr>promptId := assignedPrompt c responseData\<rparr>, [], Inr responseData))"
  by (simp add: queue_def Let_def assignedPrompt_def split: option.splits)

text \<open>
  C8. A response body without a node_errors field makes queue reject with a TypeError,
  although the submission succeeded and the prompt id was stored; and whenever queue
  resolves, the body it resolves with has a node_errors field.
\<close>

theorem queue_needs_node_errors:
  "(node_errors responseData = None \<longrightarrow>
      queue c (Responded True httpStatus (Some responseData)) =
        (c\<lparr>promptId := assignedPrompt c responseData\<rparr>, [], Inl TypeError))
   \<and> (queue c r = (c', effs, Inr out) \<longrightarrow> node_errors out \<noteq> None)"
proof (intro conjI impI)
  assume "node_errors responseData = None"
  then show "queue c (Responded True httpStatus (Some responseData)) =
        (c\<lparr>promptId := assignedPrompt c responseData\<rparr>, [], Inl TypeError)"
    by (simp add: queue_ok)
next
  assume "queue c r = (c', effs, Inr out)"
  then show "node_errors out \<noteq> None"
    by (auto simp: queue_def Let_def split: fetch_result.splits option.splits if_splits)
qed

theorem queue_needs_node_errors_witness:
  "node_errors noErrorsField = None
   \<and> queue bridge0 (Responded True 200 (Some noErrorsField)) =
       (bridge0\<lparr>promptId := PromptId (js ''p1'')\<rparr>, [], Inl TypeError)
   \<and> queue bridge0 (Responded True 200 (Some emptyErrors)) =
       (bridge0\<lparr>promptId := PromptId (js ''p1'')\<rparr>, [], Inr emptyErrors)
   \<and> node_errors emptyErrors \<noteq> None"
proof -
  have a: "node_errors noErrorsField = None" by (simp add: noErrorsField_def)
  have p: "assignedPrompt bridge0 noErrorsField = PromptId (js ''p1'')"
    by (simp add: assignedPrompt_def noErrorsField_def js_def)
  have q: "queue bridge0 (Responded True 200 (Some emptyErrors)) =
       (bridge0\<lparr>promptId := PromptId (js ''p1'')\<rparr>, [], Inr emptyErrors)"
    by (simp add: queue_ok emptyErrors_def saveNodeAffected_def assignedPrompt_def js_def)
  show ?thesis
    using a p q queue_needs_node_errors [where responseData = noErrorsField and c = bridge0
        and httpStatus = 200]
      queue_needs_node_errors [where c = bridge0 and r = "Responded True 200 (Some emptyErrors)"
        and c' = "bridge0\<lparr>promptId := PromptId (js ''p1'')\<rparr>" and effs = "[]"
        and out = emptyErrors]
    by simp
qed

lemma onmessage_save:
  "SaveCallback m p \<in> set (snd (onmessage c event)) \<Longrightarrow>
     event = Text (Some m) \<and> mtype m = js ''executed'' \<and> hasSaveCallback c
     \<and> (\<exists>q n. data_prompt_id m = Some q \<and> promptId c = PromptId q \<and> p = PromptId q
            \<and> data_node m = Some n \<and> n \<in> set (api_save c))"
  by (auto simp: onmessage_def Let_def js_def
      split: ws_event.splits option.splits if_splits)

text \<open>
  C3 (amended). For every submission answered with a success status whose body lists a
  node error with a dependent output among the api_save nodes, queue requests an interrupt
  and rejects, and does nothing else (it calls no callback). The save callback is called
  only by the message handler, for an executed event that carries the stored prompt id and
  names an api_save node.
\<close>

theorem queue_save_node_affected:
  "(node_errors responseData = Some errs \<and> saveNodeAffected (api_save c) errs \<longrightarrow>
      queue c (Responded True httpStatus (Some responseData)) =
        (c\<lparr>promptId := assignedPrompt c responseData\<rparr>,
         [InterruptRequested (assignedPrompt c responseData)],
         Inl (Error ''Save node affected by errors.'')))
   \<and> (SaveCallback m p \<in> set (snd (onmessage c event)) \<longrightarrow>
        event = Text (Some m) \<and> mtype m = js ''executed'' \<and> data_prompt_id m \<noteq> None
        \<and> promptId c = PromptId (the (data_prompt_id m)) \<and> data_node m \<noteq> None
        \<and> the (data_node m) \<in> set (api_save c))"
proof (intro conjI impI)
  assume "node_errors responseData = Some errs \<and> saveNodeAffected (api_save c) errs"
  then show "queue c (Responded True httpStatus (Some responseData)) =
        (c\<lparr>promptId := assignedPrompt c responseData\<rparr>,
         [InterruptRequested (assignedPrompt c responseData)],
         Inl (Error ''Save node affected by errors.''))"
    by (simp add: queue_ok)
next
  assume a: "SaveCallback m p \<in> set (snd (onmessage c event))"
  from onmessage_save [OF a]
  show "event = Text (Some m)" "mtype m = js ''executed''" "data_prompt_id m \<noteq> None"
    "promptId c = PromptId (the (data_prompt_id m))" "data_node m \<noteq> None"
    "the (data_node m) \<in> set (api_save c)"
    by auto
qed

lemma saveNodeErrors_affected:
  "saveNodeAffected (api_save bridge0) [(js ''125'', \<lparr>class_type = js ''LoadAudio'',
                                        dependent_outputs = Some [js ''131'']\<rparr>)]"
  by (simp add: saveNodeAffected_def bridge0_def js_def)

lemma queue_saveNodeErrors:
  "queue bridge0 (Responded True 200 (Some saveNodeErrors)) =
     (bridge0\<lparr>promptId := PromptId (js ''p1'')\<rparr>, [InterruptRequested (PromptId (js ''p1''))],
      Inl (Error ''Save node affected by errors.''))"
  using saveNodeErrors_affected
  by (simp add: queue_ok) (simp add: saveNodeErrors_def assignedPrompt_def js_def)

lemma onmessage_executed131:
  "onmessage (bridge0\<lparr>promptId := PromptId (js ''p1'')\<rparr>) (Text (Some executed131)) =
     (bridge0\<lparr>promptId := PromptId (js ''p1'')\<rparr>,
      [SaveCallback executed131 (PromptId (js ''p1'')),
       MessageCallback executed131 (PromptId (js ''p1''))])"
  by (simp add: onmessage_def bridge0_def executed131_def messageCallbackTypes_def js_def)

theorem queue_save_node_affected_witness:
  "node_errors saveNodeErrors = Some [(js ''125'', \<lparr>class_type = js ''LoadAudio'',
                                        dependent_outputs = Some [js ''131'']\<rparr>)]
   \<and> queue bridge0 (Responded True 200 (Some saveNodeErrors)) =
        (bridge0\<lparr>promptId := assignedPrompt bridge0 saveNodeErrors\<rparr>,
         [InterruptRequested (assignedPrompt bridge0 saveNodeErrors)],
         Inl (Error ''Save node affected by errors.''))
   \<and> SaveCallback executed131 (PromptId (js ''p1''))
        \<in> set (snd (onmessage (bridge0\<lparr>promptId := PromptId (js ''p1'')\<rparr>)
                       (Text (Some executed131))))
   \<and> mtype executed131 = js ''executed''
   \<and> the (data_node executed131) \<in> set (api_save (bridge0\<lparr>promptId := PromptId (js ''p1'')\<rparr>))"
proof -
  have n: "node_errors saveNodeErrors = Some [(js ''125'', \<lparr>class_type = js ''LoadAudio'',
                                        dependent_outputs = Some [js ''131'']\<rparr>)]"
    by (simp add: saveNodeErrors_def)
  have s: "SaveCallback executed131 (PromptId (js ''p1''))
        \<in> set (snd (onmessage (bridge0\<lparr>promptId := PromptId (js ''p1'')\<rparr>)
                       (Text (Some executed131))))"
    by (simp add: onmessage_executed131)
  show ?thesis
    using n s saveNodeErrors_affected
      queue_save_node_affected [where responseData = saveNodeErrors and c = bridge0
        and httpStatus = 200
        and errs = "[(js ''125'', \<lparr>class_type = js ''LoadAudio'',
                                        dependent_outputs = Some [js ''131'']\<rparr>)]"]
      queue_save_node_affected [where c = "bridge0\<lparr>promptId := PromptId (js ''p1'')\<rparr>"
        and m = executed131 and p = "PromptId (js ''p1'')" and event = "Text (Some executed131)"]
    by blast
qed

text \<open>
  C3 as stated fails in two ways. After queue has rejected a submission whose save node
  131 is affected, the bridge still holds the prompt id p1, and an executed event for p1
  and node 131 calls the save callback: nothing in the bridge records the rejection. And
  when the server answers the submission with status 400, the body is never read: queue
  rejects without requesting an interrupt, whatever node errors the body lists.
\<close>

theorem save_callback_after_rejection_counterexample:
  "snd (queue bridge0 (Responded True 200 (Some saveNodeErrors))) =
     ([InterruptRequested (PromptId (js ''p1''))], Inl (Error ''Save node affected by errors.''))
   \<and> snd (onmessage (fst (queue bridge0 (Responded True 200 (Some saveNodeErrors))))
             (Text (Some executed131))) =
       [SaveCallback executed131 (PromptId (js ''p1'')),
        MessageCallback executed131 (PromptId (js ''p1''))]
   \<and> queue bridge0 (Responded False 400 (Some saveNodeErrors)) =
       (bridge0, [], Inl (HttpStatusError 400))"
  by (simp add: queue_saveNodeErrors onmessage_executed131) (simp add: queue_def)

section \<open>Properties of the crawl\<close>

lemma collectPosts_map_filter:
  "collectPosts parse lines acc = acc @ List.map_filter (postOf parse) lines"
  by (induction lines arbitrary: acc)
     (auto simp: postOf_def split: option.splits)

lemma scanObject_append:
  "scanObject xs n seen = Some (obj, []) \<Longrightarrow> scanObject (xs @ rest) n seen = Some (obj, rest)"
proof (induction xs arbitrary: n seen)
  case Nil
  then show ?case by simp
next
  case (Cons c cs)
  then show ?case by (auto simp: Let_def split: if_splits)
qed

lemma manualExtract_Some_closed:
  assumes "manualExtract parse rest acc = Some y"
  shows "\<not> (\<exists>cs. rest = LBRACE # cs \<and> scanObject rest 0 [] = None)"
proof (rule manualExtract.raw_induct
    [where P = "\<lambda>p r a y. \<not> (\<exists>cs. r = LBRACE # cs \<and> scanObject r 0 [] = None)", OF _ assms])
  fix f p r a y
  assume IH: "\<And>p r a y. f p r a = Some y \<Longrightarrow> \<not> (\<exists>cs. r = LBRACE # cs \<and> scanObject r 0 [] = None)"
    and body: "(if r = [] then Some a
      else case dropWhile (\<lambda>c. c \<noteq> LBRACE) r of [] \<Rightarrow> Some a
           | b # bs \<Rightarrow>
               case scanObject (b # bs) 0 [] of
               None \<Rightarrow> f p (b # bs) a
               | Some (objText, after) \<Rightarrow>
                   f p after (case p objText of None \<Rightarrow> a | Some obj \<Rightarrow> a @ [obj])) = Some y"
  show "\<not> (\<exists>cs. r = LBRACE # cs \<and> scanObject r 0 [] = None)"
  proof
    assume "\<exists>cs. r = LBRACE # cs \<and> scanObject r 0 [] = None"
    then obtain cs where r: "r = LBRACE # cs" and s: "scanObject (LBRACE # cs) 0 [] = None"
      by blast
    have "dropWhile (\<lambda>c. c \<noteq> LBRACE) r = LBRACE # cs" using r by simp
    with body r s have "f p (LBRACE # cs) a = Some y" by simp
    from IH [OF this] s show False by blast
  qed
qed

lemma manualExtract_unclosed:
  "scanObject (LBRACE # bs) 0 [] = None \<Longrightarrow> manualExtract parse (LBRACE # bs) acc = None"
  using manualExtract_Some_closed [of parse "LBRACE # bs" acc] by (cases "manualExtract parse (LBRACE # bs) acc") auto

lemma closedObject_scan:
  "closedObject obj \<Longrightarrow> \<exists>bs. obj = LBRACE # bs \<and> scanObject (obj @ rest) 0 [] = Some (obj, rest)"
  by (auto simp: closedObject_def scanObject_append split: list.splits)

lemma dropWhile_sep:
  "LBRACE \<notin> set sep \<Longrightarrow> dropWhile (\<lambda>c. c \<noteq> LBRACE) (sep @ LBRACE # bs) = LBRACE # bs"
  by (induction sep) auto

lemma manualExtract_joinRecords:
  assumes "list_all (\<lambda>(sep, obj). LBRACE \<notin> set sep \<and> closedObject obj) records"
    and "LBRACE \<notin> set rest"
  shows "manualExtract parse (joinRecords records rest) acc =
           Some (acc @ List.map_filter parse (map snd records))"
  using assms(1)
proof (induction records arbitrary: acc)
  case Nil
  have dw0: "dropWhile (\<lambda>c. c \<noteq> LBRACE) rest = []" using assms(2) by (induction rest) auto
  show ?case
    by (subst manualExtract.simps) (simp add: joinRecords_def dw0)
next
  case (Cons r records)
  obtain sep obj where r: "r = (sep, obj)" by (cases r)
  from Cons.prems r have hsep: "LBRACE \<notin> set sep" and hobj: "closedObject obj"
    and htl: "list_all (\<lambda>(sep, obj). LBRACE \<notin> set sep \<and> closedObject obj) records"
    by simp_all
  let ?after = "joinRecords records rest"
  from closedObject_scan [OF hobj, of ?after] obtain bs
    where bs: "obj = LBRACE # bs" and scan: "scanObject (obj @ ?after) 0 [] = Some (obj, ?after)"
    by blast
  have shape: "joinRecords (r # records) rest = sep @ LBRACE # (bs @ ?after)"
    by (simp add: joinRecords_def r bs)
  have dw: "dropWhile (\<lambda>c. c \<noteq> LBRACE) (sep @ LBRACE # (bs @ ?after)) = LBRACE # (bs @ ?after)"
    using hsep by (rule dropWhile_sep)
  have scan': "scanObject (LBRACE # (bs @ ?after)) 0 [] = Some (obj, ?after)"
    using scan bs by simp
  have step: "manualExtract parse (joinRecords (r # records) rest) acc =
      manualExtract parse ?after (case parse obj of None \<Rightarrow> acc | Some v \<Rightarrow> acc @ [v])"
    unfolding shape by (subst manualExtract.simps) (simp add: dw scan' del: scanObject.simps)
  show ?case
    unfolding step Cons.IH [OF htl]
    by (simp add: r split: option.splits)
qed

lemma pollLoop_timeout:
  "(\<And>j. pollOnce parse (polls j) = Waiting) \<Longrightarrow>
     pollLoop parse polls waited i = Some (Inl timeoutError)"
proof (induction parse polls waited i rule: pollLoop.induct)
  case (1 parse polls waited i)
  show ?case
  proof (cases "waited < maxWaitTime")
    case True
    with 1 show ?thesis by (subst pollLoop.simps) simp
  next
    case False
    then show ?thesis by (subst pollLoop.simps) (simp add: timeoutError_def)
  qed
qed

lemma pollLoop_first_15:
  "(\<And>j. i \<le> j \<Longrightarrow> j < 15 \<Longrightarrow> polls j = polls' j) \<Longrightarrow> 3000 * i \<le> waited \<Longrightarrow>
     pollLoop parse polls waited i = pollLoop parse polls' waited i"
proof (induction parse polls waited i rule: pollLoop.induct)
  case (1 parse polls waited i)
  show ?case
  proof (cases "waited < maxWaitTime")
    case True
    with "1.prems"(2) have i: "i < 15" by (simp add: maxWaitTime_def)
    then have same: "polls i = polls' i" using "1.prems"(1) by simp
    show ?thesis
    proof (cases "pollOnce parse (polls i)")
      case Waiting
      have "pollLoop parse polls (waited + elapsed (polls i) + pollInterval) (Suc i) =
            pollLoop parse polls' (waited + elapsed (polls i) + pollInterval) (Suc i)"
        using True Waiting "1.prems" by (intro "1.IH") (simp_all add: pollInterval_def)
      with True Waiting same show ?thesis
        by (subst pollLoop.simps, subst (2) pollLoop.simps) simp
    next
      case (Finished r)
      with True same show ?thesis by (subst pollLoop.simps, subst (2) pollLoop.simps) simp
    next
      case Diverged
      with True same show ?thesis by (subst pollLoop.simps, subst (2) pollLoop.simps) simp
    qed
  next
    case False
    then show ?thesis by (subst pollLoop.simps, subst (2) pollLoop.simps) simp
  qed
qed

lemma truncated_status:
  \<open>parseSnapshot miniParse (trim (js ''{"status":"completed"}'')) =
     Inr (JObj [(js ''status'', JStr (js ''completed''))])\<close>
  by code_simp

lemma truncated_not_posts:
  \<open>\<not> stringIncludes (trim (js ''{"status":"completed"}'')) (QUOTE # js ''post_id'' @ [QUOTE])\<close>
  by code_simp

lemma truncated_structured: "structuredParse miniParse (trim (js ''{'')) = None"
  by code_simp

lemma truncated_manual: "manualExtract miniParse (js ''{'') [] = None"
proof -
  have "js ''{'' = [LBRACE]" by (simp add: js_def)
  moreover have "scanObject [LBRACE] 0 [] = None" by simp
  ultimately show ?thesis using manualExtract_unclosed [of "[]" miniParse "[]"] by simp
qed

text \<open>
  C7. The claim is that the polling loop always terminates. The rounds themselves are
  bounded (\<open>pollLoop_timeout\<close>, \<open>pollLoop_first_15\<close>: a snapshot that never reaches a final
  status ends in the timeout error, and at most fifteen rounds are ever run), but a round
  can fail to come back: when the snapshot is completed and the data reply is cut off after
  an opening brace, the last resort of the data parsing never advances and
  waitForCrawlCompletion does not return.
\<close>

theorem waitForCrawlCompletion_hangs: "waitForCrawlCompletion miniParse truncatedData = None"
proof -
  have "parseData miniParse (js ''{'') = None"
    by (simp add: parseData_def truncated_structured truncated_manual)
  then have "fetchData miniParse (truncatedData 0) = Diverged"
    by (simp add: fetchData_def truncatedData_def)
  moreover have "field (js ''status'') (JObj [(js ''status'', JStr (js ''completed''))])
      = Some (JStr (js ''completed''))"
    by (simp add: field_def)
  ultimately have "pollOnce miniParse (truncatedData 0) = Diverged"
    using truncated_status truncated_not_posts
    by (simp add: pollOnce_def Let_def truncatedData_def)
  then show ?thesis
    unfolding waitForCrawlCompletion_def
    by (subst pollLoop.simps) (simp add: maxWaitTime_def)
qed

lemma parseData_whole:
  assumes "\<not> stringIncludes (trim dataText) [RBRACE, LBRACE]" and "parse (trim dataText) = Some doc"
  shows "parseData parse dataText = Some (Inr doc)"
  using assms by (simp add: parseData_def structuredParse_def)

lemma parseData_joinRecords:
  assumes "list_all (\<lambda>(sep, obj). LBRACE \<notin> set sep \<and> closedObject obj) records"
    and "LBRACE \<notin> set rest"
    and "structuredParse parse (trim (joinRecords records rest)) = None"
  shows "parseData parse (joinRecords records rest) =
           Some (if List.map_filter parse (map snd records) = []
                 then Inl (Error ''Invalid JSON data response from BrightData API'')
                 else Inr (JArr (List.map_filter parse (map snd records))))"
  using manualExtract_joinRecords [OF assms(1,2), of parse "[]"] assms(3)
  by (simp add: parseData_def)

lemma crawlRedditNews_failure:
  assumes "waitForCrawlCompletion parse (snapshotPolls env) = Some (Inl e)"
  shows "\<exists>r. crawlRedditNews parse env location = Some r \<and> \<not> success r \<and> articles r = []"
  using assms
  by (auto simp: crawlRedditNews_def crawlFailure_def split: option.splits sum.splits)

lemma waitForCrawlCompletion_first_poll:
  "pollOnce parse (polls 0) = Finished result \<Longrightarrow> waitForCrawlCompletion parse polls = Some result"
  unfolding waitForCrawlCompletion_def
  by (subst pollLoop.simps) (simp add: maxWaitTime_def)

text \<open>
  What the data path gets right, for any \<^verbatim>\<open>JSON.parse\<close>: a text that parses as a whole and
  has no \<^verbatim>\<open>}{\<close> in it is returned as parsed; when the first attempt fails on a sequence
  of closed objects, the last resort returns exactly the objects that parse, in order; and
  a failure of waitForCrawlCompletion becomes the failure result of the crawl, with an empty
  article list, not an exception.
\<close>

lemma twoRecords_example:
  \<open>list_all (\<lambda>(sep, obj). LBRACE \<notin> set sep \<and> closedObject obj) twoRecords\<close>
  \<open>joinRecords twoRecords [] = js ''{"a":1}\<newline>{"b":2}''\<close>
  \<open>structuredParse miniParse (trim (joinRecords twoRecords [])) = None\<close>
  \<open>List.map_filter miniParse (map snd twoRecords) =
     [JObj [(js ''a'', JNum 1)], JObj [(js ''b'', JNum 2)]]\<close>
  by code_simp+

lemma twoRecords_parsed:
  \<open>parseData miniParse (js ''{"a":1}\<newline>{"b":2}'') =
     Some (Inr (JArr [JObj [(js ''a'', JNum 1)], JObj [(js ''b'', JNum 2)]]))\<close>
  using twoRecords_example parseData_joinRecords [of twoRecords "[]" miniParse] by simp

lemma downEnv_wait:
  "waitForCrawlCompletion miniParse (snapshotPolls downEnv) = Some (Inl (Error ''fetch failed''))"
  by (rule waitForCrawlCompletion_first_poll) (simp add: pollOnce_def downEnv_def)

lemma downEnv_crawl:
  "\<exists>r. crawlRedditNews miniParse downEnv (js ''ottawa'') = Some r \<and> \<not> success r \<and> articles r = []"
  using downEnv_wait by (rule crawlRedditNews_failure)

lemma lostRecord_lines:
  \<open>nonBlankLines lostRecordText =
     [js ''{"post_id":"p1","t":"a}"}'', js ''{"post_id":"p2"}'']\<close>
  \<open>miniParse (js ''{"post_id":"p1","t":"a}"}'') =
     Some (JObj [(js ''post_id'', JStr (js ''p1'')), (js ''t'', JStr (js ''a}''))])\<close>
  \<open>miniParse (js ''{"post_id":"p2"}'') = Some (JObj [(js ''post_id'', JStr (js ''p2''))])\<close>
  by code_simp+

lemma lostRecord_data:
  "parseData miniParse lostRecordText =
     Some (Inr (JArr [JObj [(js ''post_id'', JStr (js ''p2''))]]))"
  by code_simp

lemma lostRecord_direct:
  "pollOnce miniParse (directPosts 0) =
     Finished (Inr (JArr [JObj [(js ''post_id'', JStr (js ''p1'')), (js ''t'', JStr (js ''a}''))],
                           JObj [(js ''post_id'', JStr (js ''p2''))]]))"
  by code_simp

lemma lostRecord_status:
  \<open>parseSnapshot miniParse (trim (js ''{"status":"completed"}'')) =
     Inr (JObj [(js ''status'', JStr (js ''completed''))])\<close>
  \<open>\<not> stringIncludes (trim (js ''{"status":"completed"}'')) (QUOTE # js ''post_id'' @ [QUOTE])\<close>
  by code_simp+

lemma lostRecord_completed:
  "pollOnce miniParse (completedPosts 0) =
     Finished (Inr (JArr [JObj [(js ''post_id'', JStr (js ''p2''))]]))"
proof -
  have "fetchData miniParse (completedPosts 0) =
      Finished (Inr (JArr [JObj [(js ''post_id'', JStr (js ''p2''))]]))"
    by (simp add: fetchData_def completedPosts_def lostRecord_data)
  moreover have "field (js ''status'') (JObj [(js ''status'', JStr (js ''completed''))])
      = Some (JStr (js ''completed''))"
    by (simp add: field_def)
  ultimately show ?thesis
    using lostRecord_status by (simp add: pollOnce_def Let_def completedPosts_def)
qed

text \<open>
  C4. The claim is that newline-delimited records yield the maximal subset of records that
  parse. The payload here has two lines, each of which \<^verbatim>\<open>JSON.parse\<close> accepts, the first
  with a closing brace inside a string. Sent as the status reply (it contains
  \<^verbatim>\<open>"post_id"\<close>), it is parsed line by line and both posts are returned. Sent as the data of
  a completed snapshot, it is never split into lines (that is done only for a text with
  \<^verbatim>\<open>}{\<close> in it): the parse of the whole text fails, the last resort counts the brace in
  the string, cuts the first record short, discards it, and waitForCrawlCompletion returns
  the second post only.
\<close>

theorem waitForCrawlCompletion_loses_record:
  \<open>nonBlankLines lostRecordText =
     [js ''{"post_id":"p1","t":"a}"}'', js ''{"post_id":"p2"}'']
   \<and> miniParse (js ''{"post_id":"p1","t":"a}"}'') =
       Some (JObj [(js ''post_id'', JStr (js ''p1'')), (js ''t'', JStr (js ''a}''))])
   \<and> miniParse (js ''{"post_id":"p2"}'') = Some (JObj [(js ''post_id'', JStr (js ''p2''))])
   \<and> waitForCrawlCompletion miniParse directPosts =
       Some (Inr (JArr [JObj [(js ''post_id'', JStr (js ''p1'')), (js ''t'', JStr (js ''a}''))],
                        JObj [(js ''post_id'', JStr (js ''p2''))]]))
   \<and> waitForCrawlCompletion miniParse completedPosts =
       Some (Inr (JArr [JObj [(js ''post_id'', JStr (js ''p2''))]]))\<close>
  using lostRecord_lines
    waitForCrawlCompletion_first_poll [of miniParse directPosts, OF lostRecord_direct]
    waitForCrawlCompletion_first_poll [of miniParse completedPosts, OF lostRecord_completed]
  by simp

section \<open>Properties of the media key routes\<close>






lemma splitOn_example3:
  "splitOn SLASH (js ''u1/c1/a.pcm'') = [js ''u1'', js ''c1'', js ''a.pcm'']"
  by code_simp

lemma splitOn_example2: "splitOn SLASH (js ''u1/a.pcm'') = [js ''u1'', js ''a.pcm'']"
  by code_simp

lemma signRoute_rejects_mp4: "signRoute demoEnv (js ''u1/c1/a.mp4'') = invalidKeyReply"
  by code_simp





section \<open>Properties of convertPCMToWAV\<close>

lemma bindE_Inr: "bindE (Inr x) f = f x"
  by (simp add: bindE_def)

lemma length_leBytes: "length (leBytes n v) = n"
  by (simp add: leBytes_def)

lemma length_ascii: "length (ascii s) = length s"
  by (simp add: ascii_def)

lemma writeBytes_at:
  "length pre = off \<Longrightarrow> length bs \<le> length rest \<Longrightarrow>
   writeBytes bs off (pre @ rest) = pre @ bs @ drop (length bs) rest"
proof (induction bs arbitrary: off pre rest)
  case Nil
  then show ?case by simp
next
  case (Cons b bs)
  then obtain r rs where rest: "rest = r # rs" by (cases rest) auto
  have "(pre @ rest)[off := b] = (pre @ [b]) @ rs"
    using Cons.prems(1) rest by (simp add: list_update_append)
  moreover have "writeBytes bs (Suc off) ((pre @ [b]) @ rs) = (pre @ [b]) @ bs @ drop (length bs) rs"
    using Cons.prems rest by (intro Cons.IH) simp_all
  ultimately show ?case using rest by simp
qed

lemma bufWrite_at:
  "length pre = off \<Longrightarrow> length s \<le> m \<Longrightarrow>
   bufWrite s off (pre @ replicate m 0) = Inr ((pre @ ascii s) @ replicate (m - length s) 0)"
  using writeBytes_at [of pre off "map of_char s" "replicate m 0"]
  by (simp add: bufWrite_def ascii_def)

lemma writeUIntLE_at:
  "v < 256 ^ n \<Longrightarrow> length pre = off \<Longrightarrow> n \<le> m \<Longrightarrow>
   writeUIntLE n v off (pre @ replicate m 0) = Inr ((pre @ leBytes n v) @ replicate (m - n) 0)"
  using writeBytes_at [of pre off "leBytes n v" "replicate m 0"]
  by (simp add: writeUIntLE_def length_leBytes)

lemma convertPCMToWAV_header:
  assumes size: "length pcm + 36 < 4294967296" and fits: "length pcm + 44 \<le> kMaxLength"
  shows "convertPCMToWAV kMaxLength pcm = Inr (wavHeaderFor (length pcm) @ pcm)"
proof -
  define n where "n = length pcm"
  define p1 where "p1 = ascii ''RIFF''"
  define p2 where "p2 = p1 @ leBytes 4 (36 + n)"
  define p3 where "p3 = p2 @ ascii ''WAVE''"
  define p4 where "p4 = p3 @ ascii ''fmt ''"
  define p5 where "p5 = p4 @ leBytes 4 16"
  define p6 where "p6 = p5 @ leBytes 2 1"
  define p7 where "p7 = p6 @ leBytes 2 1"
  define p8 where "p8 = p7 @ leBytes 4 24000"
  define p9 where "p9 = p8 @ leBytes 4 48000"
  define p10 where "p10 = p9 @ leBytes 2 2"
  define p11 where "p11 = p10 @ leBytes 2 16"
  define p12 where "p12 = p11 @ ascii ''data''"
  define p13 where "p13 = p12 @ leBytes 4 n"
  have l1: "length p1 = 4" by (simp add: p1_def length_ascii)
  have l2: "length p2 = 8" by (simp add: p2_def l1 length_leBytes)
  have l3: "length p3 = 12" by (simp add: p3_def l2 length_ascii)
  have l4: "length p4 = 16" by (simp add: p4_def l3 length_ascii)
  have l5: "length p5 = 20" by (simp add: p5_def l4 length_leBytes)
  have l6: "length p6 = 22" by (simp add: p6_def l5 length_leBytes)
  have l7: "length p7 = 24" by (simp add: p7_def l6 length_leBytes)
  have l8: "length p8 = 28" by (simp add: p8_def l7 length_leBytes)
  have l9: "length p9 = 32" by (simp add: p9_def l8 length_leBytes)
  have l10: "length p10 = 34" by (simp add: p10_def l9 length_leBytes)
  have l11: "length p11 = 36" by (simp add: p11_def l10 length_leBytes)
  have l12: "length p12 = 40" by (simp add: p12_def l11 length_ascii)
  have l13: "length p13 = 44" by (simp add: p13_def l12 length_leBytes)
  have n36: "36 + n < 256 ^ 4" and n0: "n < 256 ^ 4" using size by (simp_all add: n_def)
  have s1: "bufWrite ''RIFF'' 0 (alloc 44) = Inr (p1 @ replicate 40 0)"
    using bufWrite_at [of "[]" 0 "''RIFF''" 44] by (simp add: alloc_def p1_def)
  have s2: "writeUIntLE 4 (36 + n) 4 (p1 @ replicate 40 0) = Inr (p2 @ replicate 36 0)"
    using writeUIntLE_at [OF n36 l1, of 40] by (simp add: p2_def)
  have s3: "bufWrite ''WAVE'' 8 (p2 @ replicate 36 0) = Inr (p3 @ replicate 32 0)"
    using bufWrite_at [OF l2, of "''WAVE''" 36] by (simp add: p3_def)
  have s4: "bufWrite ''fmt '' 12 (p3 @ replicate 32 0) = Inr (p4 @ replicate 28 0)"
    using bufWrite_at [OF l3, of "''fmt ''" 32] by (simp add: p4_def)
  have s5: "writeUIntLE 4 16 16 (p4 @ replicate 28 0) = Inr (p5 @ replicate 24 0)"
    using writeUIntLE_at [OF _ l4, of 16 4 28] by (simp add: p5_def)
  have s6: "writeUIntLE 2 (Suc 0) 20 (p5 @ replicate 24 0) = Inr (p6 @ replicate 22 0)"
    using writeUIntLE_at [OF _ l5, of 1 2 24] by (simp add: p6_def)
  have s7: "writeUIntLE 2 (Suc 0) 22 (p6 @ replicate 22 0) = Inr (p7 @ replicate 20 0)"
    using writeUIntLE_at [OF _ l6, of 1 2 22] by (simp add: p7_def)
  have s8: "writeUIntLE 4 24000 24 (p7 @ replicate 20 0) = Inr (p8 @ replicate 16 0)"
    using writeUIntLE_at [OF _ l7, of 24000 4 20] by (simp add: p8_def)
  have s9: "writeUIntLE 4 48000 28 (p8 @ replicate 16 0) = Inr (p9 @ replicate 12 0)"
    using writeUIntLE_at [OF _ l8, of 48000 4 16] by (simp add: p9_def)
  have s10: "writeUIntLE 2 2 32 (p9 @ replicate 12 0) = Inr (p10 @ replicate 10 0)"
    using writeUIntLE_at [OF _ l9, of 2 2 12] by (simp add: p10_def)
  have s11: "writeUIntLE 2 16 34 (p10 @ replicate 10 0) = Inr (p11 @ replicate 8 0)"
    using writeUIntLE_at [OF _ l10, of 16 2 10] by (simp add: p11_def)
  have s12: "bufWrite ''data'' 36 (p11 @ replicate 8 0) = Inr (p12 @ replicate 4 0)"
    using bufWrite_at [OF l11, of "''data''" 8] by (simp add: p12_def)
  have s13: "writeUIntLE 4 n 40 (p12 @ replicate 4 0) = Inr p13"
    using writeUIntLE_at [OF n0 l12, of 4] by (simp add: p13_def)
  have s14: "concat2 kMaxLength p13 pcm = Inr (p13 @ pcm)"
    using fits by (simp add: concat2_def l13)
  have hdr: "p13 = wavHeaderFor n"
    by (simp add: wavHeaderFor_def p13_def p12_def p11_def p10_def p9_def p8_def p7_def
        p6_def p5_def p4_def p3_def p2_def p1_def)
  have "convertPCMToWAV kMaxLength pcm = Inr (p13 @ pcm)"
    unfolding convertPCMToWAV_def Let_def
    by (simp add: bindE_Inr s1 s2 s3 s4 s5 s6 s7 s8 s9 s10 s11 s12 s13 s14 flip: n_def)
  with hdr show ?thesis by (simp add: n_def)
qed

lemma sum_digits: "(\<Sum>i\<leftarrow>[0..<k]. (v div 256 ^ i mod 256) * 256 ^ i) = (v::nat) mod 256 ^ k"
proof (induction k)
  case 0
  show ?case by simp
next
  case (Suc k)
  have "v mod 256 ^ Suc k = 256 ^ k * (v div 256 ^ k mod 256) + v mod 256 ^ k"
    using mod_mult2_eq [of v "256 ^ k" 256] by (simp add: mult.commute)
  with Suc show ?case by (simp add: mult.commute)
qed

lemma readUIntLE_head: "readUIntLE k (leBytes k v @ rest) 0 = v mod 256 ^ k"
proof -
  have "\<And>i. i < k \<Longrightarrow> unat ((leBytes k v @ rest) ! i) = v div 256 ^ i mod 256"
    by (simp add: nth_append length_leBytes leBytes_def unat_of_nat)
  then have "readUIntLE k (leBytes k v @ rest) 0 = (\<Sum>i\<leftarrow>[0..<k]. (v div 256 ^ i mod 256) * 256 ^ i)"
    unfolding readUIntLE_def by (intro arg_cong [where f = sum_list] map_cong) simp_all
  then show ?thesis by (simp add: sum_digits)
qed

lemma readUIntLE_skip: "length a \<le> off \<Longrightarrow> readUIntLE k (a @ b) off = readUIntLE k b (off - length a)"
  unfolding readUIntLE_def
  by (intro arg_cong [where f = sum_list] map_cong) (simp_all add: nth_append)

lemma length_wavHeaderFor: "length (wavHeaderFor n) = 44"
  by (simp add: wavHeaderFor_def length_ascii length_leBytes)

text \<open>
  C9 (amended). For every input buffer whose length plus 36 is an unsigned 32-bit integer
  (and whose length plus 44 is within the runtime's maximum buffer length),
  convertPCMToWAV returns a buffer exactly 44 bytes longer than the input, whose first four
  bytes are RIFF, whose size field at offset 4 is 36 plus the input length, whose format
  fields encode PCM (1), one channel, 24000 Hz, byte rate 48000, block align 2 and 16 bits
  per sample, whose data-size field at offset 40 is the input length, and whose bytes from
  offset 44 on are the input unchanged.
\<close>

theorem convertPCMToWAV_layout:
  assumes size: "length pcm + 36 < 4294967296" and fits: "length pcm + 44 \<le> kMaxLength"
  shows "\<exists>wav. convertPCMToWAV kMaxLength pcm = Inr wav
           \<and> length wav = length pcm + 44
           \<and> take 4 wav = ascii ''RIFF''
           \<and> readUIntLE 4 wav 4 = 36 + length pcm
           \<and> take 4 (drop 8 wav) = ascii ''WAVE''
           \<and> take 4 (drop 12 wav) = ascii ''fmt ''
           \<and> readUIntLE 4 wav 16 = 16
           \<and> readUIntLE 2 wav 20 = 1
           \<and> readUIntLE 2 wav 22 = 1
           \<and> readUIntLE 4 wav 24 = 24000
           \<and> readUIntLE 4 wav 28 = 48000
           \<and> readUIntLE 2 wav 32 = 2
           \<and> readUIntLE 2 wav 34 = 16
           \<and> take 4 (drop 36 wav) = ascii ''data''
           \<and> readUIntLE 4 wav 40 = length pcm
           \<and> drop 44 wav = pcm"
proof -
  define wav where "wav = wavHeaderFor (length pcm) @ pcm"
  note rd = wav_def wavHeaderFor_def readUIntLE_skip readUIntLE_head length_ascii length_leBytes
  have "convertPCMToWAV kMaxLength pcm = Inr wav"
    unfolding wav_def using size fits by (rule convertPCMToWAV_header)
  moreover have "length wav = length pcm + 44" by (simp add: wav_def length_wavHeaderFor)
  moreover have "take 4 wav = ascii ''RIFF''" by (simp add: wav_def wavHeaderFor_def length_ascii)
  moreover have "readUIntLE 4 wav 4 = 36 + length pcm" using size by (simp add: rd)
  moreover have "take 4 (drop 8 wav) = ascii ''WAVE''" by (simp add: rd)
  moreover have "take 4 (drop 12 wav) = ascii ''fmt ''" by (simp add: rd)
  moreover have "readUIntLE 4 wav 16 = 16" by (simp add: rd)
  moreover have "readUIntLE 2 wav 20 = 1" by (simp add: rd)
  moreover have "readUIntLE 2 wav 22 = 1" by (simp add: rd)
  moreover have "readUIntLE 4 wav 24 = 24000" by (simp add: rd)
  moreover have "readUIntLE 4 wav 28 = 48000" by (simp add: rd)
  moreover have "readUIntLE 2 wav 32 = 2" by (simp add: rd)
  moreover have "readUIntLE 2 wav 34 = 16" by (simp add: rd)
  moreover have "take 4 (drop 36 wav) = ascii ''data''" by (simp add: rd)
  moreover have "readUIntLE 4 wav 40 = length pcm" using size by (simp add: rd)
  moreover have "drop 44 wav = pcm" by (simp add: wav_def length_wavHeaderFor)
  ultimately show ?thesis by blast
qed

theorem convertPCMToWAV_layout_witness:
  "length [1, 2, 3, 4 :: byte] + 36 < 4294967296 \<and> length [1, 2, 3, 4 :: byte] + 44 \<le> 4294967296
   \<and> (\<exists>wav. convertPCMToWAV 4294967296 [1, 2, 3, 4] = Inr wav
           \<and> length wav = length [1, 2, 3, 4 :: byte] + 44
           \<and> take 4 wav = ascii ''RIFF''
           \<and> readUIntLE 4 wav 4 = 36 + length [1, 2, 3, 4 :: byte]
           \<and> take 4 (drop 8 wav) = ascii ''WAVE''
           \<and> take 4 (drop 12 wav) = ascii ''fmt ''
           \<and> readUIntLE 4 wav 16 = 16
           \<and> readUIntLE 2 wav 20 = 1
           \<and> readUIntLE 2 wav 22 = 1
           \<and> readUIntLE 4 wav 24 = 24000
           \<and> readUIntLE 4 wav 28 = 48000
           \<and> readUIntLE 2 wav 32 = 2
           \<and> readUIntLE 2 wav 34 = 16
           \<and> take 4 (drop 36 wav) = ascii ''data''
           \<and> readUIntLE 4 wav 40 = length [1, 2, 3, 4 :: byte]
           \<and> drop 44 wav = [1, 2, 3, 4])"
  using convertPCMToWAV_layout [of "[1, 2, 3, 4]" 4294967296] by simp

text \<open>
  C9 as stated, for every input buffer, fails: for a buffer of 4294967260 bytes the RIFF
  size 36 + 4294967260 = 2^32 is not an unsigned 32-bit integer, \<^verbatim>\<open>writeUInt32LE\<close>
  throws and no buffer is returned (here with the maximum buffer length 2^53 - 1 of
  current Node versions).
\<close>

theorem convertPCMToWAV_large_counterexample:
  "convertPCMToWAV 9007199254740991 (replicate 4294967260 0) = Inl RangeError"
  by (simp add: convertPCMToWAV_def bindE_def bufWrite_def alloc_def writeUIntLE_def)

section \<open>Properties of cleanResponseText\<close>

lemma isSpace_SP: "isSpace SP" by (simp add: isSpace_def)
lemma not_isSpace_LBR: "\<not> isSpace LBR" by (simp add: isSpace_def)

lemma dropWhile_Cons_head: "dropWhile P xs = d # ds \<Longrightarrow> \<not> P d"
  by (induction xs) (auto split: if_splits)

lemma dropWhile_Cons_subset: "dropWhile P xs = d # ds \<Longrightarrow> set ds \<subseteq> set xs"
  by (induction xs) (auto split: if_splits)

lemma matchTag_set: "matchTag s = Some r \<Longrightarrow> set r \<subseteq> set s"
proof -
  assume a: "matchTag s = Some r"
  from a obtain c s2 where s1: "dropWhile isSpace s = c # s2"
    by (auto simp: matchTag_def split: list.splits)
  with a obtain d s4 where s3: "dropWhile (\<lambda>d. d \<noteq> RBR) s2 = d # s4" and r: "r = dropWhile isSpace s4"
    by (auto simp: matchTag_def split: list.splits if_splits)
  have "set r \<subseteq> set s4" using r by (auto dest: set_dropWhileD)
  moreover have "set s4 \<subseteq> set s2" using s3 by (rule dropWhile_Cons_subset)
  moreover have "set s2 \<subseteq> set s" using s1 by (rule dropWhile_Cons_subset)
  ultimately show ?thesis by blast
qed

lemma set_stripTags: "set (stripTags s) \<subseteq> insert SP (set s)"
proof (induction s rule: stripTags.induct)
  case 1
  show ?case by simp
next
  case (2 c cs)
  show ?case
  proof (cases "matchTag (c # cs)")
    case None
    with 2 show ?thesis by auto
  next
    case (Some r)
    with 2 have "set (stripTags r) \<subseteq> insert SP (set r)" by simp
    moreover have "set r \<subseteq> set (c # cs)" using Some by (rule matchTag_set)
    ultimately show ?thesis using Some by auto
  qed
qed

lemma matchTag_LBR_None: "matchTag (LBR # cs) = None \<Longrightarrow> RBR \<notin> set cs"
proof -
  assume a: "matchTag (LBR # cs) = None"
  have "dropWhile isSpace (LBR # cs) = LBR # cs" using not_isSpace_LBR by simp
  with a have "dropWhile (\<lambda>d. d \<noteq> RBR) cs = []"
    by (auto simp: matchTag_def split: list.splits)
  then show ?thesis by (auto simp: dropWhile_eq_Nil_conv)
qed

lemma noTag_stripTags: "noTag (stripTags s)"
proof (induction s rule: stripTags.induct)
  case 1
  show ?case by simp
next
  case (2 c cs)
  show ?case
  proof (cases "matchTag (c # cs)")
    case None
    show ?thesis
    proof (cases "c = LBR")
      case True
      with None have "RBR \<notin> set cs" by (auto dest: matchTag_LBR_None)
      moreover have "RBR \<noteq> SP" by simp
      ultimately have "RBR \<notin> set (stripTags cs)" using set_stripTags [of cs] by blast
      with None True show ?thesis by simp
    next
      case False
      with None 2 show ?thesis by simp
    qed
  next
    case (Some r)
    with 2 show ?thesis by simp
  qed
qed

lemma noTag_no_RBR: "RBR \<notin> set s \<Longrightarrow> noTag s"
  by (induction s) auto

lemma noTag_tl: "noTag (c # cs) \<Longrightarrow> noTag cs"
  by (cases "c = LBR") (simp_all add: noTag_no_RBR)

lemma noTag_append: "noTag (xs @ ys) \<Longrightarrow> noTag xs \<and> noTag ys"
proof (induction xs)
  case Nil
  then show ?case by simp
next
  case (Cons c cs)
  show ?case
  proof (cases "c = LBR")
    case True
    with Cons.prems have "RBR \<notin> set cs" and "RBR \<notin> set ys" by simp_all
    with True show ?thesis by (simp add: noTag_no_RBR)
  next
    case False
    with Cons show ?thesis by simp
  qed
qed

lemma noTag_dropWhile: "noTag s \<Longrightarrow> noTag (dropWhile P s)"
  using noTag_append [of "takeWhile P s" "dropWhile P s"] by simp

lemma noTag_matchTag: "noTag s \<Longrightarrow> matchTag s = None"
proof (rule ccontr)
  assume n: "noTag s" and "matchTag s \<noteq> None"
  then obtain r where a: "matchTag s = Some r" by auto
  from a obtain s2 where s1: "dropWhile isSpace s = LBR # s2"
    by (auto simp: matchTag_def split: list.splits if_splits)
  with a obtain d s4 where s3: "dropWhile (\<lambda>d. d \<noteq> RBR) s2 = d # s4"
    by (auto simp: matchTag_def split: list.splits if_splits)
  have "\<not> d \<noteq> RBR" using s3 by (rule dropWhile_Cons_head)
  then have "d = RBR" by simp
  moreover have "d \<in> set s2" using set_dropWhileD [of d "\<lambda>d. d \<noteq> RBR" s2] s3 by simp
  ultimately have "RBR \<in> set s2" by simp
  moreover have "noTag (LBR # s2)" using n s1 noTag_dropWhile [of s isSpace] by simp
  ultimately show False by simp
qed

lemma stripTags_id: "noTag s \<Longrightarrow> stripTags s = s"
proof (induction s)
  case Nil
  show ?case by simp
next
  case (Cons c cs)
  have "noTag cs" using Cons.prems by (rule noTag_tl)
  then have "stripTags cs = cs" by (rule Cons.IH)
  moreover have "matchTag (c # cs) = None" using Cons.prems by (rule noTag_matchTag)
  ultimately show ?case by simp
qed

lemma set_collapseSpaces: "set (collapseSpaces s) \<subseteq> insert SP (set s)"
proof (induction s rule: collapseSpaces.induct)
  case 1
  show ?case by simp
next
  case (2 c cs)
  show ?case
  proof (cases "isSpace c")
    case True
    with 2 have "set (collapseSpaces (dropWhile isSpace cs)) \<subseteq> insert SP (set (dropWhile isSpace cs))" by simp
    moreover have "set (dropWhile isSpace cs) \<subseteq> set cs" by (auto dest: set_dropWhileD)
    ultimately show ?thesis using True by auto
  next
    case False
    with 2 show ?thesis by auto
  qed
qed

lemma noTag_collapseSpaces: "noTag s \<Longrightarrow> noTag (collapseSpaces s)"
proof (induction s rule: collapseSpaces.induct)
  case 1
  show ?case by simp
next
  case (2 c cs)
  have tl: "noTag cs" using "2.prems" by (rule noTag_tl)
  show ?case
  proof (cases "isSpace c")
    case True
    have "noTag (dropWhile isSpace cs)" using tl by (rule noTag_dropWhile)
    with 2 True show ?thesis by simp
  next
    case False
    show ?thesis
    proof (cases "c = LBR")
      case True
      with "2.prems" have "RBR \<notin> set cs" by simp
      moreover have "RBR \<noteq> SP" by simp
      ultimately have "RBR \<notin> set (collapseSpaces cs)" using set_collapseSpaces [of cs] by blast
      with True False show ?thesis by simp
    next
      case nb: False
      with 2 False tl show ?thesis by simp
    qed
  qed
qed

lemma trim_prefix: "\<exists>zs. dropWhile isSpace s = trim s @ zs"
proof -
  have "dropWhile isSpace s = rev (rev (dropWhile isSpace s))" by simp
  also have "\<dots> = rev (takeWhile isSpace (rev (dropWhile isSpace s)) @ dropWhile isSpace (rev (dropWhile isSpace s)))"
    by simp
  also have "\<dots> = trim s @ rev (takeWhile isSpace (rev (dropWhile isSpace s)))"
    by (simp only: rev_append trim_def)
  finally show ?thesis by blast
qed

lemma noTag_trim: "noTag s \<Longrightarrow> noTag (trim s)"
proof -
  assume "noTag s"
  then have "noTag (dropWhile isSpace s)" by (rule noTag_dropWhile)
  moreover obtain zs where "dropWhile isSpace s = trim s @ zs" using trim_prefix by blast
  ultimately show ?thesis using noTag_append [of "trim s" zs] by simp
qed

lemma compact_collapseSpaces: "compact (collapseSpaces s)"
proof (induction s rule: collapseSpaces.induct)
  case 1
  show ?case by simp
next
  case (2 c cs)
  show ?case
  proof (cases "isSpace c")
    case True
    have "case collapseSpaces (dropWhile isSpace cs) of [] \<Rightarrow> True | d # _ \<Rightarrow> \<not> isSpace d"
    proof (cases "dropWhile isSpace cs")
      case Nil
      show ?thesis by (simp only: Nil collapseSpaces.simps list.case)
    next
      case (Cons d ds)
      then have "\<not> isSpace d" by (rule dropWhile_Cons_head)
      with Cons show ?thesis by simp
    qed
    with 2 True isSpace_SP show ?thesis by simp
  next
    case False
    with 2 show ?thesis by simp
  qed
qed

lemma collapseSpaces_id: "compact s \<Longrightarrow> collapseSpaces s = s"
proof (induction s)
  case Nil
  show ?case by simp
next
  case (Cons c cs)
  show ?case
  proof (cases "isSpace c")
    case True
    with Cons.prems have c: "c = SP" and h: "case cs of [] \<Rightarrow> True | d # _ \<Rightarrow> \<not> isSpace d"
      and t: "compact cs" by simp_all
    from h have "dropWhile isSpace cs = cs" by (cases cs) simp_all
    with True c t Cons.IH show ?thesis by simp
  next
    case False
    with Cons show ?thesis by simp
  qed
qed

lemma compact_tl: "compact (c # cs) \<Longrightarrow> compact cs"
  by (cases "isSpace c") simp_all

lemma compact_append: "compact (xs @ ys) \<Longrightarrow> compact xs \<and> compact ys"
proof (induction xs)
  case Nil
  then show ?case by simp
next
  case (Cons c cs)
  have "compact (cs @ ys)" using Cons.prems compact_tl [of c "cs @ ys"] by simp
  then have t: "compact cs" and y: "compact ys" using Cons.IH by simp_all
  show ?case
  proof (cases "isSpace c")
    case True
    with Cons.prems have c: "c = SP"
      and h: "case cs @ ys of [] \<Rightarrow> True | d # _ \<Rightarrow> \<not> isSpace d" by simp_all
    from h have "case cs of [] \<Rightarrow> True | d # _ \<Rightarrow> \<not> isSpace d" by (cases cs) simp_all
    with True c t y show ?thesis by simp
  next
    case False
    with t y show ?thesis by simp
  qed
qed

lemma compact_dropWhile: "compact s \<Longrightarrow> compact (dropWhile P s)"
  using compact_append [of "takeWhile P s" "dropWhile P s"] by simp

lemma compact_trim: "compact s \<Longrightarrow> compact (trim s)"
proof -
  assume "compact s"
  then have "compact (dropWhile isSpace s)" by (rule compact_dropWhile)
  moreover obtain zs where "dropWhile isSpace s = trim s @ zs" using trim_prefix by blast
  ultimately show ?thesis using compact_append [of "trim s" zs] by simp
qed

lemma trim_idem: "trim (trim s) = trim s"
proof (cases "trim s")
  case Nil
  have "trim [] = []" by (simp add: trim_def)
  with Nil show ?thesis by simp
next
  case (Cons a as)
  obtain zs where z: "dropWhile isSpace s = trim s @ zs" using trim_prefix by blast
  with Cons have "dropWhile isSpace s = a # (as @ zs)" by simp
  then have "\<not> isSpace a" by (rule dropWhile_Cons_head)
  with Cons have d: "dropWhile isSpace (trim s) = trim s" by simp
  have "rev (trim s) = dropWhile isSpace (rev (dropWhile isSpace s))" by (simp add: trim_def)
  then have "dropWhile isSpace (rev (trim s)) = rev (trim s)" by (simp add: dropWhile_idem)
  then have "rev (dropWhile isSpace (rev (trim s))) = trim s" by simp
  with d show ?thesis by (simp add: trim_def)
qed

text \<open>
  C10. cleanResponseText is idempotent: cleaning a cleaned string changes nothing, and the
  tag-removal pass alone leaves a cleaned string as it is (no substring matching the
  bracket pattern remains).
\<close>

theorem cleanResponseText_idempotent:
  "cleanResponseText (cleanResponseText s) = cleanResponseText s
   \<and> stripTags (cleanResponseText s) = cleanResponseText s"
proof (cases "s = []")
  case True
  then show ?thesis by (simp add: cleanResponseText_def)
next
  case False
  let ?r = "trim (collapseSpaces (stripTags s))"
  have r: "cleanResponseText s = ?r" using False by (simp add: cleanResponseText_def)
  have "noTag ?r" by (intro noTag_trim noTag_collapseSpaces noTag_stripTags)
  then have 1: "stripTags ?r = ?r" by (rule stripTags_id)
  have "compact ?r" by (intro compact_trim compact_collapseSpaces)
  then have 2: "collapseSpaces ?r = ?r" by (rule collapseSpaces_id)
  have 3: "trim ?r = ?r" by (rule trim_idem)
  have "cleanResponseText ?r = ?r" using 1 2 3 by (simp add: cleanResponseText_def)
  with r 1 show ?thesis by simp
qed

section \<open>Properties of the chat turn\<close>

lemma signAll_None: "snd (snd (signAll env a u None)) = None"
  by (simp add: signAll_def signIfPresent_def truthy_def split: sum.splits)

lemma videoBlock_effects:
  "snd (snd (videoBlock env p videoEnabled audioKey uid chatId)) \<noteq> [] \<Longrightarrow>
     videoEnabled \<and> (\<exists>k. audioKey = Some k \<and> k \<noteq> [])"
  by (auto simp: videoBlock_def truthy_def split: if_splits option.splits)

lemma videoBlock_disabled: "videoBlock env p False audioKey uid chatId = (Some None, None, [])"
  by (simp add: videoBlock_def)

lemma videoBlock_fails:
  "videoFails env p k uid chatId \<Longrightarrow> k \<noteq> [] \<Longrightarrow>
     \<exists>effs. videoBlock env p True (Some k) uid chatId =
       (Some None, fst (snd (videoStage env p k uid chatId)), effs)"
  by (auto simp: videoBlock_def videoFails_def truthy_def split: sum.splits prod.splits option.splits)

lemma audioStage_Some:
  "fst (audioStage env) = Some k \<Longrightarrow> \<exists>userAudioKey. synthesizeAudio env = Inr (Some k, userAudioKey)"
  by (auto simp: audioStage_def split: sum.splits)

lemma chatTurn_effects:
  assumes "stagesBefore env = Inr (selectedPersona, userText, rawResponseText)"
  shows "VideoStageEntered \<in> set (snd (snd (chatTurn env db uid chatId videoEnabled)))
         \<or> VideoJobSubmitted \<in> set (snd (snd (chatTurn env db uid chatId videoEnabled)))
         \<Longrightarrow> snd (snd (videoBlock env selectedPersona videoEnabled (fst (audioStage env)) uid chatId)) \<noteq> []"
  using assms
  by (auto simp: chatTurn_def split: prod.splits option.splits if_splits)

text \<open>
  The gate of the video block. In a turn that has reached the audio stage, the video block
  is entered, and the video job submitted, only when the caller asked for video and the
  audio stage assigned a non-null (and non-empty) audio key.
\<close>

lemma video_gated:
  assumes "stagesBefore env = Inr (selectedPersona, userText, rawResponseText)"
    and "VideoStageEntered \<in> set (snd (snd (chatTurn env db uid chatId videoEnabled)))
         \<or> VideoJobSubmitted \<in> set (snd (snd (chatTurn env db uid chatId videoEnabled)))"
  shows "videoEnabled \<and> (\<exists>audioKey userAudioKey.
           synthesizeAudio env = Inr (Some audioKey, userAudioKey) \<and> audioKey \<noteq> [])"
proof -
  have "snd (snd (videoBlock env selectedPersona videoEnabled (fst (audioStage env)) uid chatId)) \<noteq> []"
    using chatTurn_effects [OF assms(1) assms(2)] .
  then have "videoEnabled" and "\<exists>k. fst (audioStage env) = Some k \<and> k \<noteq> []"
    using videoBlock_effects by blast+
  then show ?thesis using audioStage_Some by blast
qed

text \<open>
  What the \<^verbatim>\<open>catch\<close> of the video block covers. When the block's \<^verbatim>\<open>try\<close> ends in an
  exception and no rejection is left unhandled, the turn is answered with the 200 body,
  and the video URL in it is null. So is a turn without video.
\<close>

lemma video_exception_degrades:
  assumes "stagesBefore env = Inr (selectedPersona, userText, rawResponseText)"
    and "synthesizeAudio env = Inr (Some audioKey, userAudioKey)" and "audioKey \<noteq> []"
    and "videoFails env selectedPersona audioKey uid chatId"
    and "fst (snd (videoStage env selectedPersona audioKey uid chatId)) = None"
  shows "\<exists>body. fst (chatTurn env db uid chatId True) = Json200 body
           \<and> transcribedText body = userText
           \<and> responseText body = cleanResponseText rawResponseText
           \<and> signedVideoUrl body = None"
proof -
  have a: "audioStage env = (Some audioKey, userAudioKey)"
    using assms(2) by (simp add: audioStage_def)
  obtain effs where v: "videoBlock env selectedPersona True (Some audioKey) uid chatId =
      (Some None, None, effs)"
    using videoBlock_fails [OF assms(4) assms(3)] assms(5) by auto
  show ?thesis
    using signAll_None [of env "Some audioKey" userAudioKey]
    by (simp add: chatTurn_def assms(1) a v saveAndAnswer_def case_prod_unfold Let_def)
qed

lemma no_video_answered:
  assumes "stagesBefore env = Inr (selectedPersona, userText, rawResponseText)"
  shows "\<exists>body. fst (chatTurn env db uid chatId False) = Json200 body
           \<and> transcribedText body = userText
           \<and> signedVideoUrl body = None"
  using signAll_None [of env "fst (audioStage env)" "snd (audioStage env)"]
  by (simp add: chatTurn_def assms videoBlock_disabled saveAndAnswer_def case_prod_unfold Let_def)

text \<open>The three example turns up to the end of the video block.\<close>

lemma example_wav: "\<exists>wav. convertPCMToWAV 4294967296 [1, 2, 3, 4] = Inr wav"
  using convertPCMToWAV_header [of "[1, 2, 3, 4]" 4294967296] by simp

lemma example_image: "personaImageBuffer videoEnv persona0 = Some (replicate 1000 7)"
  by (simp add: personaImageBuffer_def videoEnv_def persona0_def js_def)

lemma generateVideo_comfyEnv:
  "generateVideo comfyEnv wav img uid chatId = (Some (Inl (Error ''ComfyUI execution failed'')), None)"
  by (simp add: generateVideo_def comfyEnv_def) code_simp

lemma example_image_silent: "personaImageBuffer silentEnv persona0 = Some (replicate 1000 7)"
  by (simp add: personaImageBuffer_def silentEnv_def videoEnv_def persona0_def js_def)

lemma example_image_interrupt: "personaImageBuffer interruptEnv persona0 = Some (replicate 1000 7)"
  by (simp add: personaImageBuffer_def interruptEnv_def videoEnv_def persona0_def js_def)

lemma generateVideo_silent:
  "generateVideo (video silentEnv) wav img uid chatId = (None, None)"
  by (simp add: generateVideo_def silentEnv_def comfyEnv_def) code_simp

lemma generateVideo_interrupt:
  "generateVideo (video interruptEnv) wav img uid chatId =
     (Some (Inl (Error ''Save node affected by errors.'')), Some (Error ''fetch failed''))"
  by (simp add: generateVideo_def interruptEnv_def comfyEnv_def) code_simp

lemma videoStage_videoEnv:
  "videoStage videoEnv persona0 k uid chatId =
     (Some (Inl (Error ''ComfyUI execution failed'')), None, [VideoStageEntered, VideoJobSubmitted])"
proof -
  obtain wav where w: "convertPCMToWAV 4294967296 [1, 2, 3, 4] = Inr wav"
    using example_wav by blast
  have g: "generateVideo (video videoEnv) wav (replicate 1000 7) uid chatId =
      (Some (Inl (Error ''ComfyUI execution failed'')), None)"
    using generateVideo_comfyEnv by (simp add: videoEnv_def)
  show ?thesis
    unfolding videoStage_def example_image
    by (simp add: videoEnv_def w g [unfolded videoEnv_def, simplified])
qed

lemma videoStage_silentEnv:
  "videoStage silentEnv persona0 k uid chatId = (None, None, [VideoStageEntered, VideoJobSubmitted])"
proof -
  obtain wav where w: "convertPCMToWAV 4294967296 [1, 2, 3, 4] = Inr wav"
    using example_wav by blast
  have m: "signForVideo silentEnv k = Inr (js ''https://bucket/signed'')"
    "fetchAudio silentEnv (js ''https://bucket/signed'') = Inr [1, 2, 3, 4]"
    "maxBufferLength silentEnv = 4294967296"
    by (simp_all add: silentEnv_def videoEnv_def)
  show ?thesis
    by (simp add: videoStage_def example_image_silent m w generateVideo_silent)
qed

lemma videoStage_interruptEnv:
  "videoStage interruptEnv persona0 k uid chatId =
     (Some (Inl (Error ''Save node affected by errors.'')), Some (Error ''fetch failed''),
      [VideoStageEntered, VideoJobSubmitted])"
proof -
  obtain wav where w: "convertPCMToWAV 4294967296 [1, 2, 3, 4] = Inr wav"
    using example_wav by blast
  have m: "signForVideo interruptEnv k = Inr (js ''https://bucket/signed'')"
    "fetchAudio interruptEnv (js ''https://bucket/signed'') = Inr [1, 2, 3, 4]"
    "maxBufferLength interruptEnv = 4294967296"
    by (simp_all add: interruptEnv_def videoEnv_def)
  show ?thesis
    by (simp add: videoStage_def example_image_interrupt m w generateVideo_interrupt)
qed

lemma example_stages:
  "stagesBefore silentEnv = Inr (persona0, js ''hi'', js ''[smiles] hello'')"
  "stagesBefore interruptEnv = Inr (persona0, js ''hi'', js ''[smiles] hello'')"
  "audioStage silentEnv = (Some (js ''U1/C1/a.pcm''), None)"
  "audioStage interruptEnv = (Some (js ''U1/C1/a.pcm''), None)"
  "exitMoment interruptEnv = BeforeSave"
  "truthy (Some (js ''U1/C1/a.pcm''))"
  by (simp_all add: silentEnv_def interruptEnv_def videoEnv_def audioStage_def truthy_def js_def)

text \<open>
  C5. The claim is that a video synthesis that fails never fails the turn: the answer is
  still sent, with a null video URL. Two turns with video requested and the audio
  synthesised for which no answer is sent. In the first the engine accepts the job,
  reports its start and is not heard of again: the video stage is entered and the job
  submitted, the promise of \<^verbatim>\<open>generateVideo\<close> stays pending, and the turn waits for it
  without end. In the second the engine's answer lists an error that affects the save
  node and the interrupt request fails: the video stage ends in an exception, which the
  route catches, but the rejection of the interrupt is handled by nobody and the process
  exits before the conversation is saved and the answer sent.
\<close>

theorem chatTurn_video_no_response:
  "fst (videoStage silentEnv persona0 (js ''U1/C1/a.pcm'') (js ''U1'') (js ''C1'')) = None
   \<and> fst (chatTurn silentEnv Map.empty (js ''U1'') (js ''C1'') True) = NoResponse
   \<and> snd (snd (chatTurn silentEnv Map.empty (js ''U1'') (js ''C1'') True)) =
       [VideoStageEntered, VideoJobSubmitted]
   \<and> videoFails interruptEnv persona0 (js ''U1/C1/a.pcm'') (js ''U1'') (js ''C1'')
   \<and> fst (chatTurn interruptEnv Map.empty (js ''U1'') (js ''C1'') True) = NoResponse
   \<and> snd (snd (chatTurn interruptEnv Map.empty (js ''U1'') (js ''C1'') True)) =
       [VideoStageEntered, VideoJobSubmitted, ProcessExit]"
  by (simp add: chatTurn_def videoBlock_def videoFails_def example_stages
      videoStage_silentEnv videoStage_interruptEnv)

text \<open>
  For comparison, the turn in which the engine reports an execution error: the promise is
  rejected, the route catches the exception, and the answer has a null video URL.
\<close>

lemma chatTurn_execution_error:
  "\<exists>body. fst (chatTurn videoEnv Map.empty (js ''U1'') (js ''C1'') True) = Json200 body
     \<and> transcribedText body = js ''hi''
     \<and> signedVideoUrl body = None"
proof -
  have s: "stagesBefore videoEnv = Inr (persona0, js ''hi'', js ''[smiles] hello'')"
    and a: "synthesizeAudio videoEnv = Inr (Some (js ''U1/C1/a.pcm''), None)"
    by (simp_all add: videoEnv_def)
  have n: "js ''U1/C1/a.pcm'' \<noteq> []" by (simp add: js_def)
  have f: "videoFails videoEnv persona0 (js ''U1/C1/a.pcm'') (js ''U1'') (js ''C1'')"
    by (simp add: videoFails_def videoStage_videoEnv)
  have u: "fst (snd (videoStage videoEnv persona0 (js ''U1/C1/a.pcm'') (js ''U1'') (js ''C1''))) = None"
    by (simp add: videoStage_videoEnv)
  show ?thesis
    using video_exception_degrades [OF s a n f u, of Map.empty] by blast
qed

end
